theory Spec2Isabelle
  imports Main "HOL-Library.Option_ord"
begin

section \<open>Strings\<close>

text \<open>
  Identifiers, codes and dates of the worklist server are ASCII and are modelled as
  \<^typ>\<open>string\<close>. Patient names may hold Hangul, and \<open>has_korean\<close> looks at the
  code point of every character (\<open>ord(char)\<close>), so a name is the list of its code
  points.
\<close>

type_synonym ustr = "nat list"

text \<open>\<open>str.upper()\<close> on an ASCII code string (the DICOM value representation CS).\<close>

definition upper_char :: "char \<Rightarrow> char" where
  "upper_char c =
     (if 97 \<le> (of_char c :: nat) \<and> (of_char c :: nat) \<le> 122
      then char_of ((of_char c :: nat) - 32) else c)"

definition upper :: "string \<Rightarrow> string" where
  "upper s = map upper_char s"

text \<open>\<open>str(n)\<close> for a Python integer and \<open>str.zfill(width)\<close>.\<close>

definition digit_char :: "nat \<Rightarrow> char" where
  "digit_char d = char_of (48 + d)"

fun str_nat :: "nat \<Rightarrow> string" where
  "str_nat n = (if n < 10 then [digit_char n] else str_nat (n div 10) @ [digit_char (n mod 10)])"

declare str_nat.simps [simp del]

definition str_int :: "int \<Rightarrow> string" where
  "str_int i = (if i < 0 then CHR ''-'' # str_nat (nat (- i)) else str_nat (nat i))"

definition zfill :: "nat \<Rightarrow> string \<Rightarrow> string" where
  "zfill width s =
     (if width \<le> length s then s
      else (case s of
              c # rest \<Rightarrow>
                (if c = CHR ''+'' \<or> c = CHR ''-''
                 then c # replicate (width - length s) CHR ''0'' @ rest
                 else replicate (width - length s) CHR ''0'' @ s)
            | [] \<Rightarrow> replicate width CHR ''0''))"

section \<open>Name transliteration\<close>

text \<open>
  \<open>has_korean\<close>: some character lies between \<open>ord('\<dots>')\<close> U+AC00 (44032) and U+D7A3
  (55203), the first and the last Hangul syllable.
\<close>

definition has_korean :: "ustr \<Rightarrow> bool" where
  "has_korean text = list_ex (\<lambda>ch. 44032 \<le> ch \<and> ch \<le> 55203) text"

text \<open>
  The characters \<open>str.strip()\<close> removes: those for which \<open>str.isspace()\<close> holds.
\<close>

definition isspace :: "nat \<Rightarrow> bool" where
  "isspace c \<longleftrightarrow>
     (9 \<le> c \<and> c \<le> 13) \<or> (28 \<le> c \<and> c \<le> 32) \<or> c = 133 \<or> c = 160 \<or> c = 5760
     \<or> (8192 \<le> c \<and> c \<le> 8202) \<or> c = 8232 \<or> c = 8233 \<or> c = 8239 \<or> c = 8287
     \<or> c = 12288"

definition strip :: "ustr \<Rightarrow> ustr" where
  "strip s = rev (dropWhile isspace (rev (dropWhile isspace s)))"

text \<open>\<open>''.join([char + ' ' for char in korean_name]).strip()\<close>\<close>

definition spaced_korean_name :: "ustr \<Rightarrow> ustr" where
  "spaced_korean_name korean_name = strip (concat (map (\<lambda>ch. [ch, 32]) korean_name))"

text \<open>
  The romanizer is a library outside the repository. It is a parameter of the model:
  \<open>romanize s\<close> is \<open>Romanizer(s).romanize()\<close>, with \<open>None\<close> when the library raises, and
  \<open>name_upper\<close> is \<open>str.upper()\<close> on its result.
\<close>

record romanizer =
  romanize :: "ustr \<Rightarrow> ustr option"
  name_upper :: "ustr \<Rightarrow> ustr"

text \<open>
  \<open>translate_korean_to_english_name\<close>: the whole body is inside \<open>try\<close>, and the handler
  returns the name it was given.
\<close>

definition translate_korean_to_english_name :: "'a romanizer_scheme \<Rightarrow> ustr \<Rightarrow> ustr" where
  "translate_korean_to_english_name lib korean_name =
     (if \<not> has_korean korean_name then korean_name
      else (case romanize lib (spaced_korean_name korean_name) of
              None \<Rightarrow> korean_name
            | Some r \<Rightarrow> name_upper lib r))"

section \<open>The persistent store\<close>

text \<open>
  The four tables of \<open>worklist_model.py\<close>. A nullable column is an \<open>option\<close>. The
  attribute \<open>modality\<close> of a \<open>WorklistItem\<close> object may be \<open>None\<close> in Python; the column
  is \<open>NOT NULL\<close>, which the database checks when the object is flushed.
\<close>

record datetime =
  dt_year :: nat
  dt_month :: nat
  dt_day :: nat
  dt_hour :: nat
  dt_minute :: nat
  dt_second :: nat

record Patient =
  patient_id :: string
  patient_name :: ustr
  patient_eng_name :: "ustr option"
  birth_date :: "string option"
  sex :: "string option"

record WorklistItem =
  item_patient_id :: string
  accession_number :: string
  appointment_date :: string
  appointment_time :: string
  modality :: "string option"
  aet :: "string option"
  study_instance_uid :: "string option"
  status :: string
  emr_order_seq :: "int option"

record MPPSTracking =
  sop_instance_uid :: string
  mpps_accession_number :: string
  mpps_study_instance_uid :: string
  mpps_modality :: string
  mpps_status :: string
  start_time :: "datetime option"
  end_time :: "datetime option"

record ModalityAET =
  ma_modality :: string
  ma_aet :: string

record store =
  patients :: "Patient list"
  worklist_items :: "WorklistItem list"
  mpps_tracking :: "MPPSTracking list"
  modality_aets :: "ModalityAET list"

text \<open>\<open>query.filter(...).first()\<close>: the first row that matches, or \<open>None\<close>.\<close>

definition first_patient :: "store \<Rightarrow> string \<Rightarrow> Patient option" where
  "first_patient db pid = find (\<lambda>p. patient_id p = pid) (patients db)"

definition first_item :: "store \<Rightarrow> string \<Rightarrow> WorklistItem option" where
  "first_item db acc = find (\<lambda>w. accession_number w = acc) (worklist_items db)"

definition first_mpps :: "store \<Rightarrow> string \<Rightarrow> MPPSTracking option" where
  "first_mpps db sop = find (\<lambda>m. sop_instance_uid m = sop) (mpps_tracking db)"

text \<open>An attribute assignment on the object \<open>first()\<close> returned, written back by the commit.\<close>

fun update_first :: "('a \<Rightarrow> bool) \<Rightarrow> ('a \<Rightarrow> 'a) \<Rightarrow> 'a list \<Rightarrow> 'a list" where
  "update_first P f [] = []"
| "update_first P f (x # xs) = (if P x then f x # xs else x # update_first P f xs)"

definition get_aets_for_modality :: "store \<Rightarrow> string option \<Rightarrow> string list" where
  "get_aets_for_modality db m =
     (case m of
        None \<Rightarrow> []
      | Some code \<Rightarrow> map ma_aet (filter (\<lambda>r. ma_modality r = code) (modality_aets db)))"

section \<open>The external order source\<close>

text \<open>
  The table \<open>PcsInf\<close> that \<open>emr_api.py\<close> reads and updates through ODBC, with the columns
  its two statements name. The order timestamp is either a SQL datetime or text.
  \<open>reachable\<close> is false when \<open>get_connection\<close> raises.
\<close>

datatype dtm = DateTime datetime | DtmStr string

record PcsInf =
  t_PcsOdrSeq :: "int option"
  t_PcsOdrDtm :: "dtm option"
  t_PcsOrgDtm :: "dtm option"
  t_PcsUntCod :: "string option"
  t_PcsPatNam :: "ustr option"
  t_PcsChtNum :: "string option"
  t_PcsBirDte :: "string option"
  t_PcsSexTyp :: "string option"
  t_PcsDelFlg :: "string option"
  t_PcsStatus :: "string option"

record emr_db =
  reachable :: bool
  PcsInf_rows :: "PcsInf list"

text \<open>
  A value of an order dictionary: the key is absent, or holds \<open>None\<close> (SQL \<open>NULL\<close>), or a
  value. \<open>fetch_new_orders\<close> leaves a key out only for a datetime in a column other than
  the two timestamps.
\<close>

datatype 'a col = Absent | Null | Val 'a

record order =
  PcsOdrSeq :: "int col"
  PcsOdrDtm :: "dtm col"
  PcsOrgDtm :: "dtm col"
  PcsUntCod :: "string col"
  PcsPatNam :: "ustr col"
  PcsChtNum :: "string col"
  PcsBirDte :: "string col"
  PcsSexTyp :: "string col"

definition to_col :: "'a option \<Rightarrow> 'a col" where
  "to_col v = (case v of None \<Rightarrow> Null | Some x \<Rightarrow> Val x)"

definition row_to_order :: "PcsInf \<Rightarrow> order" where
  "row_to_order r =
     \<lparr>PcsOdrSeq = to_col (t_PcsOdrSeq r), PcsOdrDtm = to_col (t_PcsOdrDtm r),
      PcsOrgDtm = to_col (t_PcsOrgDtm r), PcsUntCod = to_col (t_PcsUntCod r),
      PcsPatNam = to_col (t_PcsPatNam r), PcsChtNum = to_col (t_PcsChtNum r),
      PcsBirDte = to_col (t_PcsBirDte r), PcsSexTyp = to_col (t_PcsSexTyp r)\<rparr>"

text \<open>
  The \<open>WHERE\<close> clause of \<open>fetch_new_orders\<close>: \<open>PcsDelFlg = 'N'\<close>, and \<open>PcsOdrSeq > ?\<close>
  when a last sequence number is given (a comparison with \<open>NULL\<close> selects nothing).
\<close>

definition selected :: "int option \<Rightarrow> PcsInf \<Rightarrow> bool" where
  "selected last_order_seq r \<longleftrightarrow>
     t_PcsDelFlg r = Some ''N''
     \<and> (case last_order_seq of
          None \<Rightarrow> True
        | Some l \<Rightarrow> (case t_PcsOdrSeq r of None \<Rightarrow> False | Some s \<Rightarrow> l < s))"

text \<open>
  \<open>SELECT TOP 5 ... ORDER BY PcsOdrSeq DESC\<close>: the selected rows by descending sequence
  number (\<open>NULL\<close> last), the first five of them. Any exception gives the empty list.
\<close>

definition fetch_new_orders :: "emr_db \<Rightarrow> int option \<Rightarrow> order list" where
  "fetch_new_orders emr last_order_seq =
     (if \<not> reachable emr then []
      else map row_to_order
             (take 5 (rev (sort_key t_PcsOdrSeq (filter (selected last_order_seq) (PcsInf_rows emr))))))"

text \<open>
  \<open>update_order_status\<close>: \<open>UPDATE PcsInf SET PcsStatus = ? WHERE PcsOdrSeq = ?\<close>; the
  result says whether a row was affected, and is \<open>False\<close> on any exception.
\<close>

definition update_order_status :: "emr_db \<Rightarrow> int \<Rightarrow> string \<Rightarrow> bool \<times> emr_db" where
  "update_order_status emr order_seq st =
     (if \<not> reachable emr then (False, emr)
      else (list_ex (\<lambda>r. t_PcsOdrSeq r = Some order_seq) (PcsInf_rows emr),
            emr\<lparr>PcsInf_rows :=
                  map (\<lambda>r. if t_PcsOdrSeq r = Some order_seq then r\<lparr>t_PcsStatus := Some st\<rparr> else r)
                    (PcsInf_rows emr)\<rparr>))"

text \<open>\<open>EMR_API_AVAILABLE\<close>: the module sets it to \<open>True\<close> in a \<open>try\<close> block that cannot fail.\<close>

definition EMR_API_AVAILABLE :: bool where
  "EMR_API_AVAILABLE = True"

section \<open>The synchronization engine\<close>

text \<open>
  What the engine calls outside the repository: the romanizer, \<open>datetime.strptime\<close> with
  the format \<open>%Y%m%d%H%M\<close> (\<open>None\<close> when it raises), \<open>datetime.now()\<close>, and pydicom's
  \<open>generate_uid()\<close>, whose \<open>n\<close>-th call returns \<open>generate_uid n\<close>.
\<close>

record env = romanizer +
  strptime :: "string \<Rightarrow> datetime option"
  now :: datetime
  generate_uid :: "nat \<Rightarrow> string"

text \<open>
  \<open>strftime('%Y%m%d')\<close> and \<open>strftime('%H%M%S')\<close>: the year as it is (the C library does
  not pad a year below 1000), the other fields with two digits.
\<close>

definition strftime_date :: "datetime \<Rightarrow> string" where
  "strftime_date d =
     str_nat (dt_year d) @ zfill 2 (str_nat (dt_month d)) @ zfill 2 (str_nat (dt_day d))"

definition strftime_time :: "datetime \<Rightarrow> string" where
  "strftime_time d =
     zfill 2 (str_nat (dt_hour d)) @ zfill 2 (str_nat (dt_minute d)) @ zfill 2 (str_nat (dt_second d))"

text \<open>
  The SQLAlchemy session of \<open>sync_emr_orders\<close>. The session factory is made with
  \<open>autoflush=False\<close>, so a query reads the rows of the database and of what this
  transaction has flushed (\<open>s_db\<close>), and not the objects that \<open>db.add\<close> has only put
  into the session (\<open>s_new\<close>). After a flush has failed the transaction is rolled back
  and every further use of the session raises until it is closed (\<open>s_active\<close>).
\<close>

record session =
  s_db :: store
  s_new :: "WorklistItem list"
  s_active :: bool

text \<open>
  What an \<open>INSERT\<close> into \<open>worklist_items\<close> must meet: \<open>modality\<close> is \<open>NOT NULL\<close>,
  \<open>accession_number\<close> is \<open>UNIQUE\<close>, and \<open>emr_order_seq\<close> is an \<open>INTEGER\<close> column, for
  which SQLite takes a signed integer of 64 bits (a greater Python integer raises
  \<open>OverflowError\<close> when it is bound).
\<close>

definition sqlite_integer :: "int \<Rightarrow> bool" where
  "sqlite_integer n \<longleftrightarrow> - 9223372036854775808 \<le> n \<and> n \<le> 9223372036854775807"

definition insert_ok :: "store \<Rightarrow> WorklistItem \<Rightarrow> bool" where
  "insert_ok db w \<longleftrightarrow>
     modality w \<noteq> None
     \<and> accession_number w \<notin> set (map accession_number (worklist_items db))
     \<and> (case emr_order_seq w of None \<Rightarrow> True | Some n \<Rightarrow> sqlite_integer n)"

fun flush_items :: "store \<Rightarrow> WorklistItem list \<Rightarrow> store option" where
  "flush_items db [] = Some db"
| "flush_items db (w # ws) =
     (if insert_ok db w
      then flush_items (db\<lparr>worklist_items := worklist_items db @ [w]\<rparr>) ws
      else None)"

text \<open>
  \<open>db.add(patient); db.flush()\<close>: the flush writes the patient and every object pending
  in the session. \<open>None\<close> is the \<open>IntegrityError\<close>.
\<close>

definition add_patient_flush :: "session \<Rightarrow> Patient \<Rightarrow> session option" where
  "add_patient_flush sess p =
     (if patient_id p \<in> set (map patient_id (patients (s_db sess))) then None
      else (case flush_items ((s_db sess)\<lparr>patients := patients (s_db sess) @ [p]\<rparr>) (s_new sess) of
              None \<Rightarrow> None
            | Some db' \<Rightarrow> Some (sess\<lparr>s_db := db', s_new := []\<rparr>)))"

text \<open>\<open>db.commit()\<close>: flushes what is pending; \<open>None\<close> when it raises.\<close>

definition commit :: "session \<Rightarrow> store option" where
  "commit sess = (if \<not> s_active sess then None else flush_items (s_db sess) (s_new sess))"

text \<open>The worklist items a session holds: those of its database view, then the pending ones.\<close>

definition session_items :: "session \<Rightarrow> WorklistItem list" where
  "session_items sess = worklist_items (s_db sess) @ s_new sess"

text \<open>\<open>order.get(key)\<close> and \<open>order.get(key, default)\<close>.\<close>

definition col_get :: "'a col \<Rightarrow> 'a option" where
  "col_get c = (case c of Absent \<Rightarrow> None | Null \<Rightarrow> None | Val v \<Rightarrow> Some v)"

definition col_get_default :: "'a \<Rightarrow> 'a col \<Rightarrow> 'a option" where
  "col_get_default d c = (case c of Absent \<Rightarrow> Some d | Null \<Rightarrow> None | Val v \<Rightarrow> Some v)"

definition truthy_dtm :: "dtm \<Rightarrow> bool" where
  "truthy_dtm t = (case t of DateTime d \<Rightarrow> True | DtmStr s \<Rightarrow> s \<noteq> [])"

text \<open>
  The four required fields (chart number, patient name, order timestamp, order sequence)
  when none of them is missing or falsy; \<open>None\<close> is the order skipped as incomplete.
\<close>

definition required_fields :: "order \<Rightarrow> (string \<times> ustr \<times> dtm \<times> int) option" where
  "required_fields ord =
     (case col_get (PcsChtNum ord) of
        None \<Rightarrow> None
      | Some cht \<Rightarrow>
          (case col_get (PcsPatNam ord) of
             None \<Rightarrow> None
           | Some nam \<Rightarrow>
               (case col_get (PcsOdrDtm ord) of
                  None \<Rightarrow> None
                | Some odr_dtm \<Rightarrow>
                    (case col_get (PcsOdrSeq ord) of
                       None \<Rightarrow> None
                     | Some seq \<Rightarrow>
                         (if cht = [] \<or> nam = [] \<or> \<not> truthy_dtm odr_dtm \<or> seq = 0 then None
                          else Some (cht, nam, odr_dtm, seq))))))"

text \<open>
  The patient of the order: looked up by chart number, and created (with the
  transliterated name) and flushed when there is none.
\<close>

definition resolve_patient :: "'a env_scheme \<Rightarrow> session \<Rightarrow> order \<Rightarrow> string \<Rightarrow> ustr \<Rightarrow> session option" where
  "resolve_patient lib sess ord cht korean_name =
     (case first_patient (s_db sess) cht of
        Some patient \<Rightarrow> Some sess
      | None \<Rightarrow>
          add_patient_flush sess
            \<lparr>patient_id = cht, patient_name = korean_name,
             patient_eng_name = Some (translate_korean_to_english_name lib korean_name),
             birth_date = col_get_default [] (PcsBirDte ord),
             sex = col_get_default [] (PcsSexTyp ord)\<rparr>)"

text \<open>
  Appointment date and time: from a datetime, or parsed from text; text that does not
  parse gives the current date and time.
\<close>

definition appointment :: "'a env_scheme \<Rightarrow> dtm \<Rightarrow> string \<times> string" where
  "appointment lib odr_dtm =
     (case odr_dtm of
        DateTime d \<Rightarrow> (strftime_date d, strftime_time d)
      | DtmStr s \<Rightarrow>
          (case strptime lib s of
             Some dt \<Rightarrow> (strftime_date dt, strftime_time dt)
           | None \<Rightarrow> (strftime_date (now lib), strftime_time (now lib))))"

text \<open>\<open>str(order['PcsOdrSeq']).zfill(8)\<close>\<close>

definition derive_accession_number :: "int \<Rightarrow> string" where
  "derive_accession_number seq = zfill 8 (str_int seq)"

text \<open>
  The body of the loop over the fetched orders, with the count of added items. The
  inner \<open>try\<close> catches what the session raises and goes on with the next order.
  \<open>get_aets_for_modality\<close> opens a session of its own; the synchronization does not
  write the device mappings, so it reads those of the session's view.
\<close>

definition process_order :: "'a env_scheme \<Rightarrow> session \<times> nat \<Rightarrow> order \<Rightarrow> session \<times> nat" where
  "process_order lib sc ord =
     (case sc of (sess, count) \<Rightarrow>
       (case required_fields ord of
          None \<Rightarrow> (sess, count)
        | Some (cht, korean_name, odr_dtm, seq) \<Rightarrow>
            (if \<not> s_active sess then (sess, count)
             else (case resolve_patient lib sess ord cht korean_name of
                     None \<Rightarrow> (sess\<lparr>s_active := False\<rparr>, count)
                   | Some sess1 \<Rightarrow>
                       (case first_item (s_db sess1) (derive_accession_number seq) of
                          Some existing_item \<Rightarrow> (sess1, count)
                        | None \<Rightarrow>
                            (let m = col_get_default ''OT'' (PcsUntCod ord);
                                 aets = get_aets_for_modality (s_db sess1) m;
                                 assigned_aet = (case aets of [] \<Rightarrow> None | a # rest \<Rightarrow> Some a);
                                 worklist_item =
                                   \<lparr>item_patient_id = cht,
                                    accession_number = derive_accession_number seq,
                                    appointment_date = fst (appointment lib odr_dtm),
                                    appointment_time = snd (appointment lib odr_dtm),
                                    modality = m, aet = assigned_aet,
                                    study_instance_uid = None, status = ''SCHEDULED'',
                                    emr_order_seq = Some seq\<rparr>
                             in (sess1\<lparr>s_new := s_new sess1 @ [worklist_item]\<rparr>, count + 1)))))))"

text \<open>
  The loop and the commit over a list of fetched orders. When the commit raises, the
  outer handler returns 0 and the closed session leaves the database as it was.
\<close>

definition sync_orders :: "'a env_scheme \<Rightarrow> store \<Rightarrow> order list \<Rightarrow> nat \<times> store" where
  "sync_orders lib db new_orders =
     (case foldl (process_order lib) (\<lparr>s_db = db, s_new = [], s_active = True\<rparr>, 0) new_orders of
        (sess, count) \<Rightarrow>
          (case commit sess of
             None \<Rightarrow> (0, db)
           | Some db' \<Rightarrow> (count, db')))"

text \<open>The cursor: the greatest \<open>emr_order_seq\<close> of the items that have one.\<close>

definition last_seq :: "store \<Rightarrow> int option" where
  "last_seq db =
     (case List.map_filter emr_order_seq (worklist_items db) of
        [] \<Rightarrow> None
      | s # rest \<Rightarrow> Some (fold max rest s))"

definition sync_emr_orders :: "'a env_scheme \<Rightarrow> emr_db \<Rightarrow> store \<Rightarrow> nat \<times> store" where
  "sync_emr_orders lib emr db =
     (if \<not> EMR_API_AVAILABLE then (0, db)
      else sync_orders lib db (fetch_new_orders emr (last_seq db)))"

section \<open>The worklist query engine\<close>

text \<open>
  A row of \<open>get_worklist_items\<close>: the dictionary built from a worklist item joined with
  its patient.
\<close>

record row =
  r_accession_number :: string
  r_appointment_date :: string
  r_appointment_time :: string
  r_modality :: "string option"
  r_study_instance_uid :: "string option"
  r_aet :: "string option"
  r_patient_id :: string
  r_patient_name :: ustr
  r_patient_eng_name :: "ustr option"
  r_birth_date :: "string option"
  r_sex :: "string option"

definition make_row :: "WorklistItem \<Rightarrow> Patient \<Rightarrow> row" where
  "make_row w p =
     \<lparr>r_accession_number = accession_number w, r_appointment_date = appointment_date w,
      r_appointment_time = appointment_time w, r_modality = modality w,
      r_study_instance_uid = study_instance_uid w, r_aet = aet w,
      r_patient_id = patient_id p, r_patient_name = patient_name p,
      r_patient_eng_name = patient_eng_name p, r_birth_date = birth_date p, r_sex = sex p\<rparr>"

text \<open>
  The filters of \<open>get_worklist_items\<close>. A filter is applied when its argument is truthy
  (neither \<open>None\<close> nor the empty string), the accession number also only when it is not
  \<open>'*'\<close>.
\<close>

definition item_selected :: "string option \<Rightarrow> string option \<Rightarrow> string option \<Rightarrow> WorklistItem \<Rightarrow> bool" where
  "item_selected modality_arg date_arg accession_arg w \<longleftrightarrow>
     status w = ''SCHEDULED''
     \<and> (case accession_arg of
          None \<Rightarrow> True
        | Some a \<Rightarrow> (if a \<noteq> [] \<and> a \<noteq> ''*'' then accession_number w = a else True))
     \<and> (case date_arg of
          None \<Rightarrow> True
        | Some d \<Rightarrow> (if d \<noteq> [] then appointment_date w = d else True))
     \<and> (case modality_arg of
          None \<Rightarrow> True
        | Some m \<Rightarrow> (if m \<noteq> [] then modality w = Some m else True))"

text \<open>
  \<open>db.query(...).join(Patient).filter(...)\<close>: an inner join on the foreign key, one row
  for every pair of a selected item and a patient with the item's \<open>patient_id\<close>.
\<close>

definition get_worklist_items :: "store \<Rightarrow> string option \<Rightarrow> string option \<Rightarrow> string option \<Rightarrow> row list" where
  "get_worklist_items db modality_arg date_arg accession_arg =
     concat (map (\<lambda>w. map (make_row w) (filter (\<lambda>p. patient_id p = item_patient_id w) (patients db)))
              (filter (item_selected modality_arg date_arg accession_arg) (worklist_items db)))"

definition update_study_instance_uid :: "store \<Rightarrow> string \<Rightarrow> string \<Rightarrow> bool \<times> store" where
  "update_study_instance_uid db acc uid =
     (case first_item db acc of
        None \<Rightarrow> (False, db)
      | Some worklist_item \<Rightarrow>
          (True, db\<lparr>worklist_items :=
                      update_first (\<lambda>w. accession_number w = acc)
                        (\<lambda>w. w\<lparr>study_instance_uid := Some uid\<rparr>) (worklist_items db)\<rparr>))"

section \<open>The protocol handlers\<close>

text \<open>
  The datasets of \<open>worklist-with-mpps.py\<close>, with the attributes the handlers read or
  write. A missing attribute is \<open>None\<close>; reading it raises \<open>AttributeError\<close>.
\<close>

record sps_query =
  q_ScheduledProcedureStepStartDate :: "string option"
  q_Modality :: "string option"

record find_request =
  q_ScheduledProcedureStepSequence :: "sps_query list option"
  q_AccessionNumber :: "string option"

record sps =
  sps_Modality :: "string option"
  ScheduledStationAETitle :: "string option"
  ScheduledProcedureStepStartDate :: string
  ScheduledProcedureStepStartTime :: string
  ScheduledPerformingPhysicianName :: string
  ScheduledProcedureStepDescription :: string

record worklist_ds =
  is_little_endian :: bool
  is_implicit_VR :: bool
  PatientName :: "ustr option"
  PatientID :: string
  SpecificCharacterSet :: string
  PatientBirthDate :: "string option"
  PatientSex :: "string option"
  ScheduledProcedureStepSequence :: "sps list"
  AccessionNumber :: string
  StudyInstanceUID :: string
  StudyID :: string

record sched_step_attrs =
  ssa_AccessionNumber :: "string option"
  ssa_StudyInstanceUID :: "string option"

record mpps_ds =
  SOPClassUID :: "string option"
  SOPInstanceUID :: "string option"
  PerformedProcedureStepStatus :: "string option"
  Modality :: "string option"
  ScheduledStepAttributesSequence :: "sched_step_attrs list option"
  other_elements :: "string \<rightharpoonup> string"

text \<open>
  The state the handlers share: the database, the order source, the module's dictionary
  \<open>managed_instances\<close>, and the number of calls of \<open>generate_uid\<close> so far.
\<close>

record state =
  db :: store
  emr :: emr_db
  managed_instances :: "string \<rightharpoonup> mpps_ds"
  uids_generated :: nat

subsection \<open>C-FIND\<close>

definition truthy :: "string option \<Rightarrow> bool" where
  "truthy v = (case v of None \<Rightarrow> False | Some s \<Rightarrow> s \<noteq> [])"

text \<open>The dataset built for one row, with the study instance UID it is given.\<close>

definition worklist_dataset :: "row \<Rightarrow> string \<Rightarrow> worklist_ds" where
  "worklist_dataset item uid =
     \<lparr>is_little_endian = True, is_implicit_VR = True,
      PatientName = (if r_modality item = Some ''US'' then r_patient_eng_name item
                     else Some (r_patient_name item)),
      PatientID = r_patient_id item,
      SpecificCharacterSet = ''ISO_IR 192'',
      PatientBirthDate = r_birth_date item,
      PatientSex = r_sex item,
      ScheduledProcedureStepSequence =
        [\<lparr>sps_Modality = r_modality item, ScheduledStationAETitle = r_aet item,
          ScheduledProcedureStepStartDate = r_appointment_date item,
          ScheduledProcedureStepStartTime = r_appointment_time item,
          ScheduledPerformingPhysicianName = [], ScheduledProcedureStepDescription = []\<rparr>],
      AccessionNumber = r_accession_number item,
      StudyInstanceUID = uid,
      StudyID = r_accession_number item\<rparr>"

text \<open>
  The body of the loop of \<open>find_worklist\<close> over the rows: a row without a study
  instance UID gets a generated one, which is written to the database at once.
\<close>

definition worklist_object :: "'a env_scheme \<Rightarrow> state \<times> worklist_ds list \<Rightarrow> row \<Rightarrow> state \<times> worklist_ds list" where
  "worklist_object lib sw item =
     (case sw of (st, worklist_objects) \<Rightarrow>
       (case (if truthy (r_study_instance_uid item) then r_study_instance_uid item else None) of
          Some uid \<Rightarrow> (st, worklist_objects @ [worklist_dataset item uid])
        | None \<Rightarrow>
            (let uid = generate_uid lib (uids_generated st);
                 written = update_study_instance_uid (db st) (r_accession_number item) uid
             in (st\<lparr>db := snd written, uids_generated := Suc (uids_generated st)\<rparr>,
                 worklist_objects @ [worklist_dataset item uid]))))"

text \<open>
  The filters \<open>find_worklist\<close> reads from the request (date and modality from the first
  item of the scheduled procedure step sequence, the accession number with the default
  \<open>'*'\<close>), and the rows it gets for them.
\<close>

definition find_rows :: "store \<Rightarrow> find_request \<Rightarrow> row list" where
  "find_rows d requestedDS =
     (let first_sps = (case q_ScheduledProcedureStepSequence requestedDS of
                         None \<Rightarrow> None
                       | Some [] \<Rightarrow> None
                       | Some (x # rest) \<Rightarrow> Some x);
          sps_date = (case first_sps of None \<Rightarrow> None | Some x \<Rightarrow> q_ScheduledProcedureStepStartDate x);
          sps_modality = (case first_sps of None \<Rightarrow> None | Some x \<Rightarrow> q_Modality x);
          accession = (case q_AccessionNumber requestedDS of None \<Rightarrow> ''*'' | Some a \<Rightarrow> a)
      in get_worklist_items d sps_modality sps_date (Some accession))"

text \<open>
  \<open>find_worklist\<close>: synchronize first, query, and build the whole list of datasets.
\<close>

definition find_worklist :: "'a env_scheme \<Rightarrow> state \<Rightarrow> find_request \<Rightarrow> state \<times> worklist_ds list" where
  "find_worklist lib st requestedDS =
     (let synced = sync_emr_orders lib (emr st) (db st);
          st1 = st\<lparr>db := snd synced\<rparr>;
          db_items = find_rows (db st1) requestedDS
      in foldl (worklist_object lib) (st1, []) db_items)"

text \<open>
  The C-FIND event: the request (\<open>event.identifier\<close>), and what \<open>event.is_cancelled\<close> answers when the
  generator reads it before the dataset number \<open>i\<close> (from 0).
\<close>

record find_event =
  request_identifier :: find_request
  is_cancelled :: "nat \<Rightarrow> bool"

text \<open>
  The responses the generator \<open>handle_find\<close> yields once \<open>find_worklist\<close> has returned
  its list: pending (0xFF00) with each dataset, cancelled (0xFE00) and the end once a
  cancel is seen, success (0x0000) after the last dataset. The body of the generator
  runs when the caller asks for the first response; \<open>handle_find\<close> below is the state
  and the responses from then on.
\<close>

fun responses :: "(nat \<Rightarrow> bool) \<Rightarrow> nat \<Rightarrow> worklist_ds list \<Rightarrow> (nat \<times> worklist_ds option) list" where
  "responses cancelled i [] = [(0x0000, None)]"
| "responses cancelled i (instance # rest) =
     (if cancelled i then [(0xFE00, None)]
      else (0xFF00, Some instance) # responses cancelled (Suc i) rest)"

definition handle_find :: "'a env_scheme \<Rightarrow> state \<Rightarrow> find_event \<Rightarrow> state \<times> (nat \<times> worklist_ds option) list" where
  "handle_find lib st event =
     (case find_worklist lib st (request_identifier event) of
        (st', dsArray) \<Rightarrow> (st', responses (is_cancelled event) 0 dsArray))"

subsection \<open>MPPS: N-CREATE and N-SET\<close>

definition Dataset :: mpps_ds where
  "Dataset =
     \<lparr>SOPClassUID = None, SOPInstanceUID = None, PerformedProcedureStepStatus = None,
      Modality = None, ScheduledStepAttributesSequence = None, other_elements = Map.empty\<rparr>"

definition override :: "'a option \<Rightarrow> 'a option \<Rightarrow> 'a option" where
  "override new old = (case new of None \<Rightarrow> old | Some v \<Rightarrow> Some v)"

text \<open>\<open>ds.update(attrs)\<close>: every element of \<open>attrs\<close> replaces or extends that of \<open>ds\<close>.\<close>

definition ds_update :: "mpps_ds \<Rightarrow> mpps_ds \<Rightarrow> mpps_ds" where
  "ds_update ds attrs =
     \<lparr>SOPClassUID = override (SOPClassUID attrs) (SOPClassUID ds),
      SOPInstanceUID = override (SOPInstanceUID attrs) (SOPInstanceUID ds),
      PerformedProcedureStepStatus =
        override (PerformedProcedureStepStatus attrs) (PerformedProcedureStepStatus ds),
      Modality = override (Modality attrs) (Modality ds),
      ScheduledStepAttributesSequence =
        override (ScheduledStepAttributesSequence attrs) (ScheduledStepAttributesSequence ds),
      other_elements = other_elements ds ++ other_elements attrs\<rparr>"

definition ModalityPerformedProcedureStep :: string where
  "ModalityPerformedProcedureStep = ''1.2.840.10008.3.1.2.3.3''"

record create_event =
  AffectedSOPInstanceUID :: "string option"
  attribute_list :: mpps_ds


definition record_mpps_in_progress :: "'a env_scheme \<Rightarrow> state \<Rightarrow> string \<Rightarrow> string \<Rightarrow> string \<Rightarrow> string \<Rightarrow> bool \<times> state" where
  "record_mpps_in_progress lib st sop modality_arg acc study =
     (case first_item (db st) acc of
        None \<Rightarrow> (False, st)
      | Some worklist_item \<Rightarrow>
          (if sop \<in> set (map sop_instance_uid (mpps_tracking (db st))) then (False, st)
           else (let mpps = \<lparr>sop_instance_uid = sop, mpps_accession_number = acc,
                              mpps_study_instance_uid = study, mpps_modality = modality_arg,
                              mpps_status = ''IN PROGRESS'', start_time = Some (now lib),
                              end_time = None\<rparr>;
                     db' = (db st)\<lparr>worklist_items :=
                                     update_first (\<lambda>w. accession_number w = acc)
                                       (\<lambda>w. w\<lparr>status := ''IN PROGRESS''\<rparr>) (worklist_items (db st)),
                                   mpps_tracking := mpps_tracking (db st) @ [mpps]\<rparr>;
                     emr' = (case emr_order_seq worklist_item of
                               None \<Rightarrow> emr st
                             | Some seq \<Rightarrow>
                                 (if EMR_API_AVAILABLE \<and> seq \<noteq> 0
                                  then snd (update_order_status (emr st) seq ''IP'')
                                  else emr st))
                 in (True, st\<lparr>db := db', emr := emr'\<rparr>))))"

definition record_mpps_completed :: "'a env_scheme \<Rightarrow> state \<Rightarrow> string \<Rightarrow> bool \<times> string option \<times> state" where
  "record_mpps_completed lib st sop =
     (case first_mpps (db st) sop of
        None \<Rightarrow> (False, None, st)
      | Some mpps \<Rightarrow>
          (let acc = mpps_accession_number mpps;
               tracking = update_first (\<lambda>m. sop_instance_uid m = sop)
                            (\<lambda>m. m\<lparr>mpps_status := ''COMPLETED'', end_time := Some (now lib)\<rparr>)
                            (mpps_tracking (db st))
           in (case first_item (db st) acc of
                 None \<Rightarrow> (True, Some acc, st\<lparr>db := (db st)\<lparr>mpps_tracking := tracking\<rparr>\<rparr>)
               | Some worklist_item \<Rightarrow>
                   (let db' = (db st)\<lparr>worklist_items :=
                                         update_first (\<lambda>w. accession_number w = acc)
                                           (\<lambda>w. w\<lparr>status := ''COMPLETED''\<rparr>) (worklist_items (db st)),
                                       mpps_tracking := tracking\<rparr>;
                        emr' = (case emr_order_seq worklist_item of
                                  None \<Rightarrow> emr st
                                | Some seq \<Rightarrow>
                                    (if EMR_API_AVAILABLE \<and> seq \<noteq> 0
                                     then snd (update_order_status (emr st) seq ''CO'')
                                     else emr st))
                    in (True, Some acc, st\<lparr>db := db', emr := emr'\<rparr>)))))"

text \<open>
  What \<open>handle_create\<close> reads from the attribute list after it has registered the
  instance: the modality, and the accession number and study instance UID of the first
  item of the scheduled step attributes sequence. \<open>None\<close> is the exception raised when
  one of them, or the sequence, or its first item is missing.
\<close>

definition requested_step :: "mpps_ds \<Rightarrow> (string \<times> string \<times> string) option" where
  "requested_step attr_list =
     (case Modality attr_list of
        None \<Rightarrow> None
      | Some m \<Rightarrow>
          (case ScheduledStepAttributesSequence attr_list of
             None \<Rightarrow> None
           | Some [] \<Rightarrow> None
           | Some (x # rest) \<Rightarrow>
               (case ssa_AccessionNumber x of
                  None \<Rightarrow> None
                | Some acc \<Rightarrow>
                    (case ssa_StudyInstanceUID x of
                       None \<Rightarrow> None
                     | Some study \<Rightarrow> Some (m, acc, study)))))"

text \<open>
  The dataset \<open>handle_create\<close> builds once the request is validated, and the key under
  which it is registered (\<open>ds.SOPInstanceUID\<close> after the update).
\<close>

definition created_dataset :: "string \<Rightarrow> mpps_ds \<Rightarrow> mpps_ds" where
  "created_dataset uid attr_list =
     ds_update (Dataset\<lparr>SOPClassUID := Some ModalityPerformedProcedureStep,
                        SOPInstanceUID := Some uid\<rparr>) attr_list"

definition registered_key :: "string \<Rightarrow> mpps_ds \<Rightarrow> string" where
  "registered_key uid attr_list =
     (case SOPInstanceUID attr_list of None \<Rightarrow> uid | Some k \<Rightarrow> k)"

definition handle_create :: "'a env_scheme \<Rightarrow> state \<Rightarrow> create_event \<Rightarrow> nat \<times> mpps_ds option \<times> state" where
  "handle_create lib st event =
     (case AffectedSOPInstanceUID event of
        None \<Rightarrow> (0x0106, None, st)
      | Some uid \<Rightarrow>
          (if uid \<in> dom (managed_instances st) then (0x0111, None, st)
           else (case PerformedProcedureStepStatus (attribute_list event) of
                   None \<Rightarrow> (0x0120, None, st)
                 | Some s \<Rightarrow>
                     (if upper s \<noteq> ''IN PROGRESS'' then (0x0106, None, st)
                      else (let ds = created_dataset uid (attribute_list event);
                                st1 = st\<lparr>managed_instances :=
                                           (managed_instances st)
                                             (registered_key uid (attribute_list event) \<mapsto> ds)\<rparr>
                            in (case requested_step (attribute_list event) of
                                  None \<Rightarrow> (0x0000, Some ds, st1)
                                | Some (m, acc, study) \<Rightarrow>
                                    (0x0000, Some ds,
                                     snd (record_mpps_in_progress lib st1 uid m acc study))))))))"


definition handle_echo :: nat where
  "handle_echo = 0x0000"


section \<open>Constraints of the schema and the filter in the specification's words\<close>

text \<open>
  The constraints the schema declares and the queries rely on: \<open>patient_id\<close> and
  \<open>accession_number\<close> are unique, and the \<open>patient_id\<close> of a worklist item is a foreign
  key into the patients.
\<close>

definition referential_integrity :: "store \<Rightarrow> bool" where
  "referential_integrity d \<longleftrightarrow>
     distinct (map patient_id (patients d))
     \<and> distinct (map accession_number (worklist_items d))
     \<and> (\<forall>w \<in> set (worklist_items d). item_patient_id w \<in> set (map patient_id (patients d)))"

text \<open>
  The filter as the specification states it: the item is \<open>SCHEDULED\<close> and matches each
  predicate that is given; an absent or empty value is not given, and the accession
  number \<open>'*'\<close> is a wildcard.
\<close>

definition given :: "string option \<Rightarrow> bool" where
  "given v \<longleftrightarrow> v \<noteq> None \<and> v \<noteq> Some []"

definition satisfies_filter :: "string option \<Rightarrow> string option \<Rightarrow> string option \<Rightarrow> WorklistItem \<Rightarrow> bool" where
  "satisfies_filter modality_arg date_arg accession_arg w \<longleftrightarrow>
     status w = ''SCHEDULED''
     \<and> (given modality_arg \<longrightarrow> modality w = modality_arg)
     \<and> (given date_arg \<longrightarrow> Some (appointment_date w) = date_arg)
     \<and> (given accession_arg \<and> accession_arg \<noteq> Some ''*'' \<longrightarrow> Some (accession_number w) = accession_arg)"

section \<open>Example data\<close>

text \<open>
  A library environment whose romanizer and date parser always fail, the patient and the
  worklist item of the order with sequence number 42, and MPPS events for that item.
\<close>

definition lib0 :: env where
  "lib0 =
     \<lparr>romanize = (\<lambda>s. None), name_upper = (\<lambda>s. s), strptime = (\<lambda>s. None),
      now = \<lparr>dt_year = 2025, dt_month = 1, dt_day = 1, dt_hour = 10, dt_minute = 0, dt_second = 0\<rparr>,
      generate_uid = (\<lambda>n. ''1.2.826.0.1.'' @ str_nat n)\<rparr>"

definition john_doe :: Patient where
  "john_doe =
     \<lparr>patient_id = ''P1'', patient_name = [74, 79, 72, 78], patient_eng_name = Some [74, 79, 72, 78],
      birth_date = None, sex = None\<rparr>"

definition item42 :: WorklistItem where
  "item42 =
     \<lparr>item_patient_id = ''P1'', accession_number = ''00000042'', appointment_date = ''20250101'',
      appointment_time = ''100000'', modality = Some ''CT'', aet = None, study_instance_uid = None,
      status = ''SCHEDULED'', emr_order_seq = Some 42\<rparr>"

definition store42 :: store where
  "store42 = \<lparr>patients = [john_doe], worklist_items = [item42], mpps_tracking = [], modality_aets = []\<rparr>"

definition offline :: emr_db where
  "offline = \<lparr>reachable = False, PcsInf_rows = []\<rparr>"

definition state42 :: state where
  "state42 = \<lparr>db = store42, emr = offline, managed_instances = Map.empty, uids_generated = 0\<rparr>"

definition start_attrs :: "string \<Rightarrow> mpps_ds" where
  "start_attrs acc =
     Dataset\<lparr>PerformedProcedureStepStatus := Some ''In Progress'', Modality := Some ''CT'',
             ScheduledStepAttributesSequence :=
               Some [\<lparr>ssa_AccessionNumber = Some acc, ssa_StudyInstanceUID = Some ''1.2.3''\<rparr>]\<rparr>"

definition start_event :: "string \<Rightarrow> create_event" where
  "start_event acc = \<lparr>AffectedSOPInstanceUID = Some ''1.9.1'', attribute_list = start_attrs acc\<rparr>"


text \<open>
  Order sources: one with six orders of one patient, numbered 1 to 6, and one in which
  the order 42 of one patient appears twice.
\<close>

definition order_row :: "int \<Rightarrow> PcsInf" where
  "order_row seq =
     \<lparr>t_PcsOdrSeq = Some seq, t_PcsOdrDtm = Some (DtmStr ''202501011000''), t_PcsOrgDtm = None,
      t_PcsUntCod = Some ''CT'', t_PcsPatNam = Some [74, 79, 72, 78], t_PcsChtNum = Some ''P1'',
      t_PcsBirDte = None, t_PcsSexTyp = None, t_PcsDelFlg = Some ''N'', t_PcsStatus = None\<rparr>"

definition order42 :: order where
  "order42 =
     \<lparr>PcsOdrSeq = Val 42, PcsOdrDtm = Val (DtmStr ''202501011000''), PcsOrgDtm = Null,
      PcsUntCod = Val ''CT'', PcsPatNam = Val [74, 79, 72, 78], PcsChtNum = Val ''P1'',
      PcsBirDte = Null, PcsSexTyp = Null\<rparr>"

definition six_orders :: emr_db where
  "six_orders = \<lparr>reachable = True, PcsInf_rows = map order_row [1, 2, 3, 4, 5, 6]\<rparr>"

definition order42_twice :: emr_db where
  "order42_twice = \<lparr>reachable = True, PcsInf_rows = [order_row 42, order_row 42]\<rparr>"

definition empty_store :: store where
  "empty_store = \<lparr>patients = [], worklist_items = [], mpps_tracking = [], modality_aets = []\<rparr>"

text \<open>
  A store with two scheduled items without a study instance UID, one of them an
  ultrasound examination of a patient with a Korean name; the same store with a third,
  completed item; and a C-FIND event without filters that is cancelled after the first
  dataset.
\<close>

definition kim :: Patient where
  "kim =
     \<lparr>patient_id = ''P2'', patient_name = [44608], patient_eng_name = Some [75, 73, 77],
      birth_date = None, sex = None\<rparr>"

definition item43 :: WorklistItem where
  "item43 =
     \<lparr>item_patient_id = ''P2'', accession_number = ''00000043'', appointment_date = ''20250102'',
      appointment_time = ''110000'', modality = Some ''US'', aet = None, study_instance_uid = None,
      status = ''SCHEDULED'', emr_order_seq = Some 43\<rparr>"

definition store43 :: store where
  "store43 =
     \<lparr>patients = [john_doe, kim], worklist_items = [item42, item43], mpps_tracking = [],
      modality_aets = []\<rparr>"

definition item44 :: WorklistItem where
  "item44 =
     \<lparr>item_patient_id = ''P1'', accession_number = ''00000044'', appointment_date = ''20250102'',
      appointment_time = ''120000'', modality = Some ''US'', aet = None,
      study_instance_uid = Some ''1.2.3'', status = ''COMPLETED'', emr_order_seq = Some 44\<rparr>"

definition store44 :: store where
  "store44 = store43\<lparr>worklist_items := [item42, item43, item44]\<rparr>"




definition state43 :: state where
  "state43 = \<lparr>db = store43, emr = offline, managed_instances = Map.empty, uids_generated = 0\<rparr>"

definition no_filter :: find_request where
  "no_filter = \<lparr>q_ScheduledProcedureStepSequence = None, q_AccessionNumber = None\<rparr>"

definition find_cancelled :: find_event where
  "find_cancelled = \<lparr>request_identifier = no_filter, is_cancelled = (\<lambda>i. 1 \<le> i)\<rparr>"

section \<open>Properties of the name transliteration\<close>

lemma has_korean_iff: "has_korean text \<longleftrightarrow> (\<exists>ch \<in> set text. 44032 \<le> ch \<and> ch \<le> 55203)"
  by (simp add: has_korean_def list_ex_iff)

text \<open>
  Claim C7. A name with no character of the Hangul syllables block (U+AC00 to U+D7AF) is
  returned unchanged, whatever the romanizer does; and when the romanizer fails on a
  Korean name, the name comes back unchanged instead of an exception. The result is a
  function of the romanizer and the name alone.
\<close>

theorem transliterate_unchanged:
  "((\<forall>ch \<in> set name. ch < 44032 \<or> 55215 < ch)
      \<longrightarrow> translate_korean_to_english_name lib name = name)
   \<and> (romanize lib (spaced_korean_name name) = None
      \<longrightarrow> translate_korean_to_english_name lib name = name)"
proof (intro conjI impI)
  assume outside: "\<forall>ch \<in> set name. ch < 44032 \<or> 55215 < ch"
  have "\<not> has_korean name"
    unfolding has_korean_iff
  proof
    assume "\<exists>ch \<in> set name. 44032 \<le> ch \<and> ch \<le> 55203"
    then obtain ch where "ch \<in> set name" and "44032 \<le> ch" and "ch \<le> 55203"
      by blast
    with outside show False by fastforce
  qed
  then show "translate_korean_to_english_name lib name = name"
    by (simp add: translate_korean_to_english_name_def)
next
  assume "romanize lib (spaced_korean_name name) = None"
  then show "translate_korean_to_english_name lib name = name"
    by (simp add: translate_korean_to_english_name_def)
qed

text \<open>
  The name \<open>SMITH\<close> (code points 83 77 73 84 72) is returned as it is, and the syllable
  U+AC00 comes back unchanged from a romanizer that always fails.
\<close>

theorem transliterate_unchanged_witness:
  "translate_korean_to_english_name \<lparr>romanize = (\<lambda>s. None), name_upper = (\<lambda>s. s)\<rparr>
        [83, 77, 73, 84, 72] = [83, 77, 73, 84, 72]
   \<and> romanize \<lparr>romanize = (\<lambda>s. None), name_upper = (\<lambda>s. s)\<rparr> (spaced_korean_name [44032]) = None
   \<and> translate_korean_to_english_name \<lparr>romanize = (\<lambda>s. None), name_upper = (\<lambda>s. s)\<rparr>
        [44032] = [44032]"
  using transliterate_unchanged [of "[83, 77, 73, 84, 72]" "\<lparr>romanize = (\<lambda>s. None), name_upper = (\<lambda>s. s)\<rparr>"]
    transliterate_unchanged [of "[44032]" "\<lparr>romanize = (\<lambda>s. None), name_upper = (\<lambda>s. s)\<rparr>"]
  by simp

section \<open>Properties of the procedure-step handlers\<close>

lemma upper_in_progress: "upper ''In Progress'' = ''IN PROGRESS''"
  by code_simp


lemma record_mpps_in_progress_managed:
  "managed_instances (snd (record_mpps_in_progress lib st sop m acc study)) = managed_instances st"
  by (simp add: record_mpps_in_progress_def Let_def split: option.splits)

lemma record_mpps_in_progress_not_found:
  "first_item (db st) acc = None \<Longrightarrow> record_mpps_in_progress lib st sop m acc study = (False, st)"
  by (simp add: record_mpps_in_progress_def)

lemma record_mpps_completed_managed:
  "managed_instances (snd (snd (record_mpps_completed lib st sop))) = managed_instances st"
  by (simp add: record_mpps_completed_def Let_def split: option.splits)






text \<open>
  Claim C9. Once the validations of \<open>handle_create\<close> have passed, the result is 0x0000
  with the constructed dataset, and the dataset is registered in \<open>managed_instances\<close>
  (under the request's UID when the attribute list carries no SOP instance UID of its
  own), whatever happens afterwards. When the attribute list lacks the modality or the
  scheduled step attributes (the exception is caught), or when the database has no item
  with the requested accession number, the database, with its tracking rows, and the
  order source are left unchanged.
\<close>

theorem handle_create_item_not_found:
  assumes "AffectedSOPInstanceUID event = Some uid"
    and "uid \<notin> dom (managed_instances st)"
    and "PerformedProcedureStepStatus (attribute_list event) = Some s"
    and "upper s = ''IN PROGRESS''"
  shows "fst (handle_create lib st event) = 0x0000
    \<and> fst (snd (handle_create lib st event)) = Some (created_dataset uid (attribute_list event))
    \<and> managed_instances (snd (snd (handle_create lib st event)))
         (registered_key uid (attribute_list event))
        = Some (created_dataset uid (attribute_list event))
    \<and> (SOPInstanceUID (attribute_list event) = None
         \<longrightarrow> managed_instances (snd (snd (handle_create lib st event))) uid
             = Some (created_dataset uid (attribute_list event)))
    \<and> ((requested_step (attribute_list event) = None
          \<or> (\<exists>m acc study. requested_step (attribute_list event) = Some (m, acc, study)
                \<and> first_item (db st) acc = None))
         \<longrightarrow> db (snd (snd (handle_create lib st event))) = db st
             \<and> mpps_tracking (db (snd (snd (handle_create lib st event)))) = mpps_tracking (db st)
             \<and> emr (snd (snd (handle_create lib st event))) = emr st)"
proof -
  let ?ds = "created_dataset uid (attribute_list event)"
  let ?st1 = "st\<lparr>managed_instances :=
                    (managed_instances st)(registered_key uid (attribute_list event) \<mapsto> ?ds)\<rparr>"
  have unfolded: "handle_create lib st event =
      (case requested_step (attribute_list event) of
         None \<Rightarrow> (0x0000, Some ?ds, ?st1)
       | Some (m, acc, study) \<Rightarrow>
           (0x0000, Some ?ds, snd (record_mpps_in_progress lib ?st1 uid m acc study)))"
    using assms by (simp add: handle_create_def Let_def)
  have code: "fst (handle_create lib st event) = 0x0000"
    and ds: "fst (snd (handle_create lib st event)) = Some ?ds"
    by (simp_all add: unfolded split: option.splits prod.splits)
  have registered: "managed_instances (snd (snd (handle_create lib st event)))
      (registered_key uid (attribute_list event)) = Some ?ds"
    by (simp add: unfolded record_mpps_in_progress_managed split: option.splits prod.splits)
  have own_key: "SOPInstanceUID (attribute_list event) = None
      \<longrightarrow> managed_instances (snd (snd (handle_create lib st event))) uid = Some ?ds"
    using registered by (auto simp: registered_key_def)
  have frame: "db (snd (snd (handle_create lib st event))) = db st
      \<and> mpps_tracking (db (snd (snd (handle_create lib st event)))) = mpps_tracking (db st)
      \<and> emr (snd (snd (handle_create lib st event))) = emr st"
    if "requested_step (attribute_list event) = None
          \<or> (\<exists>m acc study. requested_step (attribute_list event) = Some (m, acc, study)
                \<and> first_item (db st) acc = None)"
    using that
  proof
    assume "requested_step (attribute_list event) = None"
    then show ?thesis by (simp add: unfolded)
  next
    assume "\<exists>m acc study. requested_step (attribute_list event) = Some (m, acc, study)
                \<and> first_item (db st) acc = None"
    then obtain m acc study
      where step: "requested_step (attribute_list event) = Some (m, acc, study)"
        and none: "first_item (db st) acc = None"
      by blast
    from none have "record_mpps_in_progress lib ?st1 uid m acc study = (False, ?st1)"
      by (simp add: record_mpps_in_progress_not_found)
    with step show ?thesis by (simp add: unfolded)
  qed
  from code ds registered own_key frame show ?thesis by blast
qed

text \<open>
  A start for the accession number \<open>00000099\<close>, which the database does not hold, and
  a start whose attribute list has only the status.
\<close>

theorem handle_create_item_not_found_witness:
  "fst (handle_create lib0 state42 (start_event ''00000099'')) = 0x0000
   \<and> managed_instances (snd (snd (handle_create lib0 state42 (start_event ''00000099'')))) ''1.9.1''
       = Some (created_dataset ''1.9.1'' (start_attrs ''00000099''))
   \<and> db (snd (snd (handle_create lib0 state42 (start_event ''00000099'')))) = store42
   \<and> emr (snd (snd (handle_create lib0 state42 (start_event ''00000099'')))) = offline
   \<and> db (snd (snd (handle_create lib0 state42
        \<lparr>AffectedSOPInstanceUID = Some ''1.9.1'',
         attribute_list = Dataset\<lparr>PerformedProcedureStepStatus := Some ''In Progress''\<rparr>\<rparr>))) = store42"
proof -
  let ?bare = "\<lparr>AffectedSOPInstanceUID = Some ''1.9.1'',
         attribute_list = Dataset\<lparr>PerformedProcedureStepStatus := Some ''In Progress''\<rparr>\<rparr>"
  have fresh: "''1.9.1'' \<notin> dom (managed_instances state42)"
    by (simp add: state42_def)
  have uid: "AffectedSOPInstanceUID (start_event ''00000099'') = Some ''1.9.1''"
    and status: "PerformedProcedureStepStatus (attribute_list (start_event ''00000099'')) = Some ''In Progress''"
    and own: "SOPInstanceUID (attribute_list (start_event ''00000099'')) = None"
    and attrs: "attribute_list (start_event ''00000099'') = start_attrs ''00000099''"
    by (simp_all add: start_event_def start_attrs_def Dataset_def)
  have missing: "\<exists>m acc study.
      requested_step (attribute_list (start_event ''00000099'')) = Some (m, acc, study)
      \<and> first_item (db state42) acc = None"
    by (simp add: start_event_def start_attrs_def Dataset_def requested_step_def first_item_def
          state42_def store42_def item42_def)
  have uid': "AffectedSOPInstanceUID ?bare = Some ''1.9.1''"
    and status': "PerformedProcedureStepStatus (attribute_list ?bare) = Some ''In Progress''"
    and raises: "requested_step (attribute_list ?bare) = None"
    by (simp_all add: Dataset_def requested_step_def)
  have d: "db state42 = store42" and e: "emr state42 = offline"
    by (simp_all add: state42_def)
  from handle_create_item_not_found [OF uid fresh status upper_in_progress, of lib0] own missing
  have c1: "fst (handle_create lib0 state42 (start_event ''00000099'')) = 0x0000
      \<and> managed_instances (snd (snd (handle_create lib0 state42 (start_event ''00000099'')))) ''1.9.1''
          = Some (created_dataset ''1.9.1'' (attribute_list (start_event ''00000099'')))
      \<and> db (snd (snd (handle_create lib0 state42 (start_event ''00000099'')))) = db state42
      \<and> emr (snd (snd (handle_create lib0 state42 (start_event ''00000099'')))) = emr state42"
    by blast
  from handle_create_item_not_found [OF uid' fresh status' upper_in_progress, of lib0] raises
  have c2: "db (snd (snd (handle_create lib0 state42 ?bare))) = db state42"
    by blast
  from c1 c2 attrs d e show ?thesis
    by simp
qed

section \<open>Properties of the procedure-step state machine\<close>

lemma find_update_first:
  assumes "\<And>x. P x \<Longrightarrow> P (f x)"
  shows "find P (update_first P f xs) = map_option f (find P xs)"
  using assms by (induction xs) auto











section \<open>Properties of the synchronization engine\<close>

lemma length_fetch_new_orders: "length (fetch_new_orders src last_order_seq) \<le> 5"
  by (simp add: fetch_new_orders_def)

lemma flush_items_Some:
  assumes "flush_items d ws = Some d'"
  shows "worklist_items d' = worklist_items d @ ws" and "patients d' = patients d"
    and "mpps_tracking d' = mpps_tracking d" and "modality_aets d' = modality_aets d"
  using assms by (induction ws arbitrary: d) (auto split: if_splits)

lemma add_patient_flush_Some:
  assumes "add_patient_flush sess p = Some sess1"
  shows "session_items sess1 = session_items sess" and "s_new sess1 = []"
    and "s_active sess1 = s_active sess" and "patients (s_db sess1) = patients (s_db sess) @ [p]"
    and "mpps_tracking (s_db sess1) = mpps_tracking (s_db sess)"
    and "modality_aets (s_db sess1) = modality_aets (s_db sess)"
  using assms
  by (auto simp: add_patient_flush_def session_items_def split: if_splits option.splits
           dest: flush_items_Some)

lemma resolve_patient_Some:
  assumes "resolve_patient lib sess ord cht nam = Some sess1"
  shows "session_items sess1 = session_items sess" and "s_active sess1 = s_active sess"
    and "mpps_tracking (s_db sess1) = mpps_tracking (s_db sess)"
    and "modality_aets (s_db sess1) = modality_aets (s_db sess)"
  using assms
  by (auto simp: resolve_patient_def split: option.splits dest: add_patient_flush_Some)

text \<open>What one turn of the loop does to the items of the session and to the count.\<close>

lemma process_order_step:
  assumes "process_order lib (sess, count) ord = (sess', count')"
  shows "(s_active sess' \<and> session_items sess' = session_items sess \<and> count' = count)
       \<or> (s_active sess' \<and> (\<exists>w. session_items sess' = session_items sess @ [w]) \<and> count' = Suc count)
       \<or> \<not> s_active sess'"
  using assms
  by (auto simp: process_order_def Let_def session_items_def
           split: option.splits if_splits prod.splits dest: resolve_patient_Some)

lemma process_order_inactive:
  assumes "\<not> s_active sess"
  shows "\<not> s_active (fst (process_order lib (sess, count) ord))"
  using assms by (simp add: process_order_def split: option.splits prod.splits)

lemma foldl_process_order:
  assumes "foldl (process_order lib) (sess, count) os = (sess', count')"
  shows "\<not> s_active sess'
       \<or> (\<exists>added. session_items sess' = session_items sess @ added
             \<and> count' = count + length added \<and> length added \<le> length os)"
  using assms
proof (induction os arbitrary: sess count)
  case Nil
  then show ?case by simp
next
  case (Cons ord os)
  obtain sess1 count1 where step: "process_order lib (sess, count) ord = (sess1, count1)"
    by (cases "process_order lib (sess, count) ord")
  with Cons.prems have rest: "foldl (process_order lib) (sess1, count1) os = (sess', count')"
    by simp
  from Cons.IH [OF rest] show ?case
  proof
    assume "\<not> s_active sess'"
    then show ?thesis ..
  next
    assume "\<exists>added. session_items sess' = session_items sess1 @ added
             \<and> count' = count1 + length added \<and> length added \<le> length os"
    then obtain added where added: "session_items sess' = session_items sess1 @ added"
      "count' = count1 + length added" "length added \<le> length os"
      by blast
    from process_order_step [OF step] consider
      (same) "session_items sess1 = session_items sess" "count1 = count"
      | (new) w where "session_items sess1 = session_items sess @ [w]" "count1 = Suc count"
      | (failed) "\<not> s_active sess1"
      by blast
    then show ?thesis
    proof cases
      case same
      with added have "session_items sess' = session_items sess @ added
          \<and> count' = count + length added \<and> length added \<le> length (ord # os)"
        by simp
      then show ?thesis by blast
    next
      case new
      with added have "session_items sess' = session_items sess @ (w # added)
          \<and> count' = count + length (w # added) \<and> length (w # added) \<le> length (ord # os)"
        by simp
      then show ?thesis by blast
    next
      case failed
      have "\<not> s_active (fst (foldl (process_order lib) (sess1, count1) os))"
        using failed
      proof (induction os arbitrary: sess1 count1)
        case Nil
        then show ?case by simp
      next
        case (Cons a os)
        obtain s2 c2 where s2: "process_order lib (sess1, count1) a = (s2, c2)"
          by (cases "process_order lib (sess1, count1) a")
        from process_order_inactive [OF Cons.prems, of lib count1 a] s2
        have "\<not> s_active s2" by simp
        from Cons.IH [OF this] s2 show ?case by simp
      qed
      with rest show ?thesis by simp
    qed
  qed
qed

text \<open>
  The result of the loop and the commit: the count, with as many new items appended to
  the table, at most one for each order; and nothing when the commit fails.
\<close>

lemma sync_orders_added:
  "\<exists>added. worklist_items (snd (sync_orders lib d os)) = worklist_items d @ added
     \<and> fst (sync_orders lib d os) = length added \<and> length added \<le> length os"
proof -
  obtain sess count
    where run: "foldl (process_order lib) (\<lparr>s_db = d, s_new = [], s_active = True\<rparr>, 0) os = (sess, count)"
    by (cases "foldl (process_order lib) (\<lparr>s_db = d, s_new = [], s_active = True\<rparr>, 0) os")
  show ?thesis
  proof (cases "commit sess")
    case None
    with run have "sync_orders lib d os = (0, d)"
      by (simp add: sync_orders_def)
    then show ?thesis by simp
  next
    case (Some d')
    then have active: "s_active sess" and flushed: "flush_items (s_db sess) (s_new sess) = Some d'"
      by (auto simp: commit_def split: if_splits)
    from foldl_process_order [OF run] active obtain added
      where "session_items sess = worklist_items d @ added" "count = length added" "length added \<le> length os"
      by (auto simp: session_items_def)
    moreover from flush_items_Some(1) [OF flushed] have "worklist_items d' = session_items sess"
      by (simp add: session_items_def)
    moreover from run Some have "sync_orders lib d os = (count, d')"
      by (simp add: sync_orders_def)
    ultimately show ?thesis by simp
  qed
qed

text \<open>
  Claim C10. \<open>fetch_new_orders\<close> returns at most five orders, whatever the table holds,
  and one call of \<open>sync_emr_orders\<close> appends to the worklist items exactly as many items
  as it reports, at most five.
\<close>

theorem sync_at_most_five:
  "length (fetch_new_orders src last_order_seq) \<le> 5
   \<and> fst (sync_emr_orders lib src d) \<le> 5
   \<and> (\<exists>added. worklist_items (snd (sync_emr_orders lib src d)) = worklist_items d @ added
         \<and> length added = fst (sync_emr_orders lib src d))"
proof -
  let ?os = "fetch_new_orders src (last_seq d)"
  from sync_orders_added [of lib d ?os] obtain added
    where added: "worklist_items (snd (sync_orders lib d ?os)) = worklist_items d @ added"
      "fst (sync_orders lib d ?os) = length added" "length added \<le> length ?os"
    by blast
  have five: "length ?os \<le> 5"
    by (rule length_fetch_new_orders)
  have sync: "sync_emr_orders lib src d = sync_orders lib d ?os"
    by (simp add: sync_emr_orders_def EMR_API_AVAILABLE_def)
  from added five have "fst (sync_emr_orders lib src d) \<le> 5"
    unfolding sync by simp
  moreover from added have "\<exists>added. worklist_items (snd (sync_emr_orders lib src d)) = worklist_items d @ added
         \<and> length added = fst (sync_emr_orders lib src d)"
    unfolding sync by auto
  ultimately show ?thesis
    using length_fetch_new_orders by blast
qed

text \<open>
  With six new orders in the source and an empty store, one call fetches five of them.
\<close>

theorem sync_at_most_five_witness:
  "length (fetch_new_orders six_orders None) = 5
   \<and> fst (sync_emr_orders lib0 six_orders empty_store) \<le> 5"
proof -
  have fetched: "5 \<le> length (fetch_new_orders six_orders None)"
    by code_simp
  from sync_at_most_five [of six_orders None lib0 empty_store] fetched
  show ?thesis
    by auto
qed

subsection \<open>Two orders with one sequence number in one batch\<close>

lemma accession_42: "derive_accession_number 42 = ''00000042''"
  by code_simp

lemma appointment_lib0: "appointment lib0 (DtmStr ''202501011000'') = (''20250101'', ''100000'')"
  by code_simp

lemma translate_john_doe: "translate_korean_to_english_name lib0 [74, 79, 72, 78] = [74, 79, 72, 78]"
  by (simp add: translate_korean_to_english_name_def has_korean_def)

lemma fetch_order42_twice: "fetch_new_orders order42_twice None = [order42, order42]"
  by code_simp

lemma required_order42:
  "required_fields order42 = Some (''P1'', [74, 79, 72, 78], DtmStr ''202501011000'', 42)"
  by (simp add: required_fields_def order42_def col_get_def truthy_dtm_def)

lemma first_order42:
  assumes "s_active sess" and "patients (s_db sess) = []" and "worklist_items (s_db sess) = []"
    and "s_new sess = []" and "modality_aets (s_db sess) = []"
  shows "process_order lib0 (sess, count) order42
     = (sess\<lparr>s_db := (s_db sess)\<lparr>patients := [john_doe]\<rparr>, s_new := [item42]\<rparr>, Suc count)"
proof -
  have patient: "resolve_patient lib0 sess order42 ''P1'' [74, 79, 72, 78]
      = Some (sess\<lparr>s_db := (s_db sess)\<lparr>patients := [john_doe]\<rparr>, s_new := []\<rparr>)"
    using assms
    by (simp add: resolve_patient_def first_patient_def add_patient_flush_def
          translate_john_doe order42_def col_get_default_def john_doe_def)
  have code: "col_get_default ''OT'' (PcsUntCod order42) = Some ''CT''"
    by (simp add: col_get_default_def order42_def)
  show ?thesis
    using assms
    by (simp add: process_order_def required_order42 patient accession_42 code
          first_item_def get_aets_for_modality_def appointment_lib0 item42_def)
qed

lemma second_order42:
  assumes "s_active sess" and "first_patient (s_db sess) ''P1'' = Some p"
    and "first_item (s_db sess) ''00000042'' = None" and "modality_aets (s_db sess) = []"
  shows "process_order lib0 (sess, count) order42 = (sess\<lparr>s_new := s_new sess @ [item42]\<rparr>, Suc count)"
proof -
  have patient: "resolve_patient lib0 sess order42 ''P1'' [74, 79, 72, 78] = Some sess"
    using assms by (simp add: resolve_patient_def)
  have code: "col_get_default ''OT'' (PcsUntCod order42) = Some ''CT''"
    by (simp add: col_get_default_def order42_def)
  show ?thesis
    using assms
    by (simp add: process_order_def required_order42 patient accession_42 code
          get_aets_for_modality_def appointment_lib0 item42_def)
qed

lemma last_seq_empty: "last_seq empty_store = None"
  by (simp add: last_seq_def empty_store_def List.map_filter_simps)

text \<open>
  Claim C1, at the input where the code departs from it. The source returns the order 42
  of patient \<open>P1\<close> twice, and the store is empty. The first order creates the patient
  (flushed at once) and adds its item to the session. The second finds the patient, so
  nothing is flushed; the query for an item with accession number \<open>00000042\<close> does
  not see the pending item (\<open>autoflush=False\<close>), and a second item with the same
  accession number is added. The commit then fails on the unique constraint, outside the
  inner \<open>try\<close>: \<open>sync_emr_orders\<close> returns 0 and the store stays empty, where the claim
  expects exactly one worklist item.
\<close>

theorem sync_same_order_twice:
  "sync_emr_orders lib0 order42_twice empty_store = (0, empty_store)"
proof -
  let ?s0 = "\<lparr>s_db = empty_store, s_new = [], s_active = True\<rparr>"
  let ?s1 = "\<lparr>s_db = empty_store\<lparr>patients := [john_doe]\<rparr>, s_new = [item42], s_active = True\<rparr>"
  let ?s2 = "\<lparr>s_db = empty_store\<lparr>patients := [john_doe]\<rparr>, s_new = [item42, item42], s_active = True\<rparr>"
  have one: "process_order lib0 (?s0, 0) order42 = (?s1, Suc 0)"
    using first_order42 [of ?s0 0] by (simp add: empty_store_def)
  have known: "first_patient (s_db ?s1) ''P1'' = Some john_doe"
    by (simp add: first_patient_def empty_store_def john_doe_def)
  have pending: "first_item (s_db ?s1) ''00000042'' = None"
    by (simp add: first_item_def empty_store_def)
  have no_aets: "modality_aets (s_db ?s1) = []"
    by (simp add: empty_store_def)
  have two: "process_order lib0 (?s1, Suc 0) order42 = (?s2, Suc (Suc 0))"
    using second_order42 [OF _ known pending no_aets, of "Suc 0"] by simp
  have raised: "commit ?s2 = None"
    by (simp add: commit_def insert_ok_def empty_store_def item42_def)
  have "foldl (process_order lib0) (?s0, 0) [order42, order42] = (?s2, Suc (Suc 0))"
    by (simp add: one two)
  with raised show ?thesis
    by (simp add: sync_emr_orders_def EMR_API_AVAILABLE_def sync_orders_def last_seq_empty
          fetch_order42_twice)
qed

subsection \<open>Synchronization keeps the constraints of the schema\<close>

lemma flush_items_distinct:
  assumes "flush_items d ws = Some d'"
    and "distinct (map accession_number (worklist_items d))"
  shows "distinct (map accession_number (worklist_items d'))"
  using assms
  by (induction ws arbitrary: d) (auto simp: insert_ok_def split: if_splits)

lemma first_patient_Some:
  assumes "first_patient d pid = Some p"
  shows "pid \<in> set (map patient_id (patients d))"
  using assms by (auto simp: first_patient_def find_Some_iff)

text \<open>
  The invariant of the session during the loop: what has been flushed meets the unique
  constraints, and every item of the session, flushed or pending, has its patient.
\<close>

lemma add_patient_flush_distinct:
  assumes "add_patient_flush sess p = Some sess1"
    and "distinct (map patient_id (patients (s_db sess)))"
    and "distinct (map accession_number (worklist_items (s_db sess)))"
  shows "distinct (map patient_id (patients (s_db sess1)))"
    and "distinct (map accession_number (worklist_items (s_db sess1)))"
proof -
  from assms(1) have new: "patient_id p \<notin> set (map patient_id (patients (s_db sess)))"
    by (auto simp: add_patient_flush_def split: if_splits)
  with assms(2) add_patient_flush_Some(4) [OF assms(1)]
  show "distinct (map patient_id (patients (s_db sess1)))"
    by simp
  from assms(1) obtain d'
    where flushed: "flush_items ((s_db sess)\<lparr>patients := patients (s_db sess) @ [p]\<rparr>) (s_new sess) = Some d'"
      and sess1: "sess1 = sess\<lparr>s_db := d', s_new := []\<rparr>"
    by (auto simp: add_patient_flush_def split: if_splits option.splits)
  from flush_items_distinct [OF flushed] assms(3) sess1
  show "distinct (map accession_number (worklist_items (s_db sess1)))"
    by simp
qed

lemma resolve_patient_invariant:
  assumes resolved: "resolve_patient lib sess ord cht nam = Some sess1"
    and patients: "distinct (map patient_id (patients (s_db sess)))"
    and items: "distinct (map accession_number (worklist_items (s_db sess)))"
    and fk: "\<forall>w \<in> set (session_items sess). item_patient_id w \<in> set (map patient_id (patients (s_db sess)))"
  shows "distinct (map patient_id (patients (s_db sess1)))
     \<and> distinct (map accession_number (worklist_items (s_db sess1)))
     \<and> (\<forall>w \<in> set (session_items sess1). item_patient_id w \<in> set (map patient_id (patients (s_db sess1))))
     \<and> cht \<in> set (map patient_id (patients (s_db sess1)))"
proof (cases "first_patient (s_db sess) cht")
  case (Some p)
  with resolved have "sess1 = sess"
    by (simp add: resolve_patient_def)
  with patients items fk first_patient_Some [OF Some] show ?thesis
    by simp
next
  case None
  let ?p = "\<lparr>patient_id = cht, patient_name = nam,
             patient_eng_name = Some (translate_korean_to_english_name lib nam),
             birth_date = col_get_default [] (PcsBirDte ord),
             sex = col_get_default [] (PcsSexTyp ord)\<rparr>"
  from None resolved have added: "add_patient_flush sess ?p = Some sess1"
    by (simp add: resolve_patient_def)
  from add_patient_flush_Some(1,4) [OF added] fk
  have "\<forall>w \<in> set (session_items sess1). item_patient_id w \<in> set (map patient_id (patients (s_db sess1)))"
    and "cht \<in> set (map patient_id (patients (s_db sess1)))"
    by auto
  with add_patient_flush_distinct [OF added patients items] show ?thesis
    by simp
qed

lemma process_order_invariant:
  assumes "process_order lib (sess, count) ord = (sess', count')"
    and "distinct (map patient_id (patients (s_db sess)))"
    and "distinct (map accession_number (worklist_items (s_db sess)))"
    and "\<forall>w \<in> set (session_items sess). item_patient_id w \<in> set (map patient_id (patients (s_db sess)))"
  shows "distinct (map patient_id (patients (s_db sess')))
     \<and> distinct (map accession_number (worklist_items (s_db sess')))
     \<and> (\<forall>w \<in> set (session_items sess'). item_patient_id w \<in> set (map patient_id (patients (s_db sess'))))"
proof (cases "required_fields ord")
  case None
  with assms show ?thesis by (simp add: process_order_def)
next
  case (Some fields)
  obtain cht nam odr_dtm seq where fields: "fields = (cht, nam, odr_dtm, seq)"
    by (cases fields)
  show ?thesis
  proof (cases "s_active sess")
    case False
    with assms Some fields show ?thesis by (simp add: process_order_def)
  next
    case True
    show ?thesis
    proof (cases "resolve_patient lib sess ord cht nam")
      case None
      with assms Some fields True show ?thesis
        by (auto simp: process_order_def session_items_def)
    next
      case (Some sess1)
      note inv = resolve_patient_invariant [OF Some assms(2-4)]
      have "sess' = sess1 \<or> (\<exists>w. item_patient_id w = cht \<and> sess' = sess1\<lparr>s_new := s_new sess1 @ [w]\<rparr>)"
      proof (cases "first_item (s_db sess1) (derive_accession_number seq)")
        case None
        with assms(1) \<open>required_fields ord = Some fields\<close> fields True Some
        have "\<exists>w. item_patient_id w = cht \<and> sess' = sess1\<lparr>s_new := s_new sess1 @ [w]\<rparr>"
          by (simp add: process_order_def Let_def del: ex_simps) (metis WorklistItem.select_convs(1))
        then show ?thesis ..
      next
        case (Some existing_item)
        with assms(1) \<open>required_fields ord = Some fields\<close> fields True
          \<open>resolve_patient lib sess ord cht nam = Some sess1\<close>
        show ?thesis by (simp add: process_order_def)
      qed
      then show ?thesis
      proof
        assume "sess' = sess1"
        with inv show ?thesis by simp
      next
        assume "\<exists>w. item_patient_id w = cht \<and> sess' = sess1\<lparr>s_new := s_new sess1 @ [w]\<rparr>"
        then obtain w where "item_patient_id w = cht" "sess' = sess1\<lparr>s_new := s_new sess1 @ [w]\<rparr>"
          by blast
        with inv show ?thesis by (auto simp: session_items_def)
      qed
    qed
  qed
qed

lemma foldl_process_order_invariant:
  assumes "foldl (process_order lib) (sess, count) os = (sess', count')"
    and "distinct (map patient_id (patients (s_db sess)))"
    and "distinct (map accession_number (worklist_items (s_db sess)))"
    and "\<forall>w \<in> set (session_items sess). item_patient_id w \<in> set (map patient_id (patients (s_db sess)))"
  shows "distinct (map patient_id (patients (s_db sess')))
     \<and> distinct (map accession_number (worklist_items (s_db sess')))
     \<and> (\<forall>w \<in> set (session_items sess'). item_patient_id w \<in> set (map patient_id (patients (s_db sess'))))"
  using assms
proof (induction os arbitrary: sess count)
  case Nil
  then show ?case by simp
next
  case (Cons ord os)
  obtain sess1 count1 where step: "process_order lib (sess, count) ord = (sess1, count1)"
    by (cases "process_order lib (sess, count) ord")
  from process_order_invariant [OF step Cons.prems(2-4)] Cons.prems(1) step
  show ?case by (intro Cons.IH [of sess1 count1]) simp_all
qed

lemma sync_orders_integrity:
  assumes "referential_integrity d"
  shows "referential_integrity (snd (sync_orders lib d os))"
proof -
  let ?s0 = "\<lparr>s_db = d, s_new = [], s_active = True\<rparr>"
  obtain sess count where run: "foldl (process_order lib) (?s0, 0) os = (sess, count)"
    by (cases "foldl (process_order lib) (?s0, 0) os")
  show ?thesis
  proof (cases "commit sess")
    case None
    with run assms show ?thesis by (simp add: sync_orders_def)
  next
    case (Some d')
    then have flushed: "flush_items (s_db sess) (s_new sess) = Some d'"
      by (auto simp: commit_def split: if_splits)
    from assms have "distinct (map patient_id (patients (s_db ?s0)))"
      "distinct (map accession_number (worklist_items (s_db ?s0)))"
      "\<forall>w \<in> set (session_items ?s0). item_patient_id w \<in> set (map patient_id (patients (s_db ?s0)))"
      by (simp_all add: referential_integrity_def session_items_def)
    from foldl_process_order_invariant [OF run this]
    have inv: "distinct (map patient_id (patients (s_db sess)))"
      "distinct (map accession_number (worklist_items (s_db sess)))"
      "\<forall>w \<in> set (session_items sess). item_patient_id w \<in> set (map patient_id (patients (s_db sess)))"
      by simp_all
    from flush_items_Some(1,2) [OF flushed] flush_items_distinct [OF flushed inv(2)] inv(1,3)
    have "referential_integrity d'"
      by (simp add: referential_integrity_def session_items_def)
    with run Some show ?thesis by (simp add: sync_orders_def)
  qed
qed

lemma sync_emr_orders_integrity:
  assumes "referential_integrity d"
  shows "referential_integrity (snd (sync_emr_orders lib src d))"
  using sync_orders_integrity [OF assms] by (simp add: sync_emr_orders_def EMR_API_AVAILABLE_def)

subsection \<open>Orders whose item is already in the database\<close>

lemma find_append_Some:
  assumes "find P xs = Some x"
  shows "find P (xs @ ys) = Some x"
  using assms by (induction xs) (auto split: if_splits)

lemma find_Some_member:
  assumes "find P xs = Some x"
  shows "x \<in> set xs" and "P x"
  using assms by (induction xs) (auto split: if_splits)

lemma resolve_patient_items:
  assumes "resolve_patient lib sess ord cht nam = Some sess1"
  shows "\<exists>flushed. worklist_items (s_db sess1) = worklist_items (s_db sess) @ flushed"
proof (cases "first_patient (s_db sess) cht")
  case (Some p)
  with assms show ?thesis by (simp add: resolve_patient_def)
next
  case None
  with assms obtain p d'
    where "flush_items ((s_db sess)\<lparr>patients := patients (s_db sess) @ [p]\<rparr>) (s_new sess) = Some d'"
      and "sess1 = sess\<lparr>s_db := d', s_new := []\<rparr>"
    by (auto simp: resolve_patient_def add_patient_flush_def split: if_splits option.splits)
  with flush_items_Some(1) [OF this(1)] show ?thesis by simp
qed

text \<open>
  An order whose derived accession number is that of an item the database view of the
  session already holds is skipped: no item is added for it and the count stays.
\<close>

lemma process_order_existing:
  assumes fields: "required_fields ord = Some (cht, nam, odr_dtm, seq)"
    and existing: "first_item (s_db sess) (derive_accession_number seq) = Some w"
  shows "snd (process_order lib (sess, count) ord) = count"
    and "session_items (fst (process_order lib (sess, count) ord)) = session_items sess"
proof -
  have "snd (process_order lib (sess, count) ord) = count
      \<and> session_items (fst (process_order lib (sess, count) ord)) = session_items sess"
  proof (cases "s_active sess")
    case False
    with fields show ?thesis by (simp add: process_order_def)
  next
    case True
    show ?thesis
    proof (cases "resolve_patient lib sess ord cht nam")
      case None
      with fields True show ?thesis by (simp add: process_order_def session_items_def)
    next
      case (Some sess1)
      from resolve_patient_items [OF Some] obtain flushed
        where "worklist_items (s_db sess1) = worklist_items (s_db sess) @ flushed"
        by blast
      with existing have "first_item (s_db sess1) (derive_accession_number seq) = Some w"
        by (simp add: first_item_def find_append_Some)
      with fields True Some resolve_patient_Some(1) [OF Some] show ?thesis
        by (simp add: process_order_def)
    qed
  qed
  then show "snd (process_order lib (sess, count) ord) = count"
    and "session_items (fst (process_order lib (sess, count) ord)) = session_items sess"
    by simp_all
qed

subsection \<open>A second run over the same orders\<close>

lemma foldl_process_order_inactive:
  assumes "\<not> s_active sess"
  shows "\<not> s_active (fst (foldl (process_order lib) (sess, count) os))"
  using assms
proof (induction os arbitrary: sess count)
  case Nil
  then show ?case by simp
next
  case (Cons ord os)
  obtain s1 c1 where step: "process_order lib (sess, count) ord = (s1, c1)"
    by (cases "process_order lib (sess, count) ord")
  from process_order_inactive [OF Cons.prems, of lib count ord] step have "\<not> s_active s1"
    by simp
  from Cons.IH [OF this] step show ?case by simp
qed

text \<open>
  After a turn of the loop that leaves the session usable, the order is covered: its
  patient is in the database view and its accession number is that of an item of the
  session. Patients and items of the session are never removed.
\<close>

lemma process_order_covers:
  assumes step: "process_order lib (sess, count) ord = (sess', count')"
    and active: "s_active sess'"
  shows "set (map patient_id (patients (s_db sess))) \<subseteq> set (map patient_id (patients (s_db sess')))"
    and "set (map accession_number (session_items sess)) \<subseteq> set (map accession_number (session_items sess'))"
    and "\<forall>cht nam odr_dtm seq. required_fields ord = Some (cht, nam, odr_dtm, seq)
           \<longrightarrow> cht \<in> set (map patient_id (patients (s_db sess')))
               \<and> derive_accession_number seq \<in> set (map accession_number (session_items sess'))"
proof -
  have "set (map patient_id (patients (s_db sess))) \<subseteq> set (map patient_id (patients (s_db sess')))
    \<and> set (map accession_number (session_items sess)) \<subseteq> set (map accession_number (session_items sess'))
    \<and> (\<forall>cht nam odr_dtm seq. required_fields ord = Some (cht, nam, odr_dtm, seq)
           \<longrightarrow> cht \<in> set (map patient_id (patients (s_db sess')))
               \<and> derive_accession_number seq \<in> set (map accession_number (session_items sess')))"
  proof (cases "required_fields ord")
    case None
    with step show ?thesis by (simp add: process_order_def)
  next
    case (Some fields)
    obtain cht nam odr_dtm seq where fields: "required_fields ord = Some (cht, nam, odr_dtm, seq)"
      using Some by (cases fields) simp
    from step active fields have was_active: "s_active sess"
      by (auto simp: process_order_def split: if_splits)
    from step active fields was_active obtain sess1
      where resolved: "resolve_patient lib sess ord cht nam = Some sess1"
      by (cases "resolve_patient lib sess ord cht nam") (auto simp: process_order_def)
    have patients: "set (map patient_id (patients (s_db sess))) \<subseteq> set (map patient_id (patients (s_db sess1)))"
      and known: "cht \<in> set (map patient_id (patients (s_db sess1)))"
      using resolved
      by (auto simp: resolve_patient_def split: option.splits
               dest: first_patient_Some add_patient_flush_Some(4))
    note items = resolve_patient_Some(1) [OF resolved]
    show ?thesis
    proof (cases "first_item (s_db sess1) (derive_accession_number seq)")
      case (Some w)
      with step fields was_active resolved have "sess' = sess1"
        by (simp add: process_order_def)
      moreover from find_Some_member [OF Some [unfolded first_item_def]]
      have "derive_accession_number seq \<in> set (map accession_number (session_items sess1))"
        by (force simp: session_items_def)
      ultimately show ?thesis
        using patients known items fields by simp
    next
      case None
      with step fields was_active resolved
      have "\<exists>w. accession_number w = derive_accession_number seq
          \<and> sess' = sess1\<lparr>s_new := s_new sess1 @ [w]\<rparr>"
        by (simp add: process_order_def Let_def del: ex_simps) (metis WorklistItem.select_convs(2))
      then obtain w where w: "accession_number w = derive_accession_number seq"
        and sess': "sess' = sess1\<lparr>s_new := s_new sess1 @ [w]\<rparr>"
        by blast
      from sess' have "session_items sess' = session_items sess1 @ [w]"
        by (simp add: session_items_def)
      with items have items': "session_items sess' = session_items sess @ [w]"
        by simp
      from sess' have "patients (s_db sess') = patients (s_db sess1)"
        by simp
      with patients known fields w show ?thesis
        unfolding items' by auto
    qed
  qed
  then show "set (map patient_id (patients (s_db sess))) \<subseteq> set (map patient_id (patients (s_db sess')))"
    and "set (map accession_number (session_items sess)) \<subseteq> set (map accession_number (session_items sess'))"
    and "\<forall>cht nam odr_dtm seq. required_fields ord = Some (cht, nam, odr_dtm, seq)
           \<longrightarrow> cht \<in> set (map patient_id (patients (s_db sess')))
               \<and> derive_accession_number seq \<in> set (map accession_number (session_items sess'))"
    by simp_all
qed

lemma foldl_process_order_covers:
  assumes run: "foldl (process_order lib) (sess, count) os = (sess', count')"
    and active: "s_active sess'"
  shows "set (map patient_id (patients (s_db sess))) \<subseteq> set (map patient_id (patients (s_db sess')))
    \<and> set (map accession_number (session_items sess)) \<subseteq> set (map accession_number (session_items sess'))
    \<and> (\<forall>ord \<in> set os. \<forall>cht nam odr_dtm seq. required_fields ord = Some (cht, nam, odr_dtm, seq)
           \<longrightarrow> cht \<in> set (map patient_id (patients (s_db sess')))
               \<and> derive_accession_number seq \<in> set (map accession_number (session_items sess')))"
  using run
proof (induction os arbitrary: sess count)
  case Nil
  then show ?case by simp
next
  case (Cons ord os)
  obtain s1 c1 where step: "process_order lib (sess, count) ord = (s1, c1)"
    by (cases "process_order lib (sess, count) ord")
  with Cons.prems have rest: "foldl (process_order lib) (s1, c1) os = (sess', count')"
    by simp
  have "s_active s1"
  proof (rule ccontr)
    assume "\<not> s_active s1"
    from foldl_process_order_inactive [OF this, of lib c1 os] rest active show False
      by simp
  qed
  note first = process_order_covers [OF step this]
  from Cons.IH [OF rest] first show ?case
    by (simp add: subset_iff)
qed

text \<open>An order that is covered by the database leaves a session with nothing pending as it is.\<close>

lemma process_order_covered:
  assumes "s_active sess"
    and "\<forall>cht nam odr_dtm seq. required_fields ord = Some (cht, nam, odr_dtm, seq)
           \<longrightarrow> cht \<in> set (map patient_id (patients (s_db sess)))
               \<and> derive_accession_number seq \<in> set (map accession_number (worklist_items (s_db sess)))"
  shows "process_order lib (sess, count) ord = (sess, count)"
proof (cases "required_fields ord")
  case None
  then show ?thesis by (simp add: process_order_def)
next
  case (Some fields)
  obtain cht nam odr_dtm seq where fields: "required_fields ord = Some (cht, nam, odr_dtm, seq)"
    using Some by (cases fields) simp
  with assms(2) have "cht \<in> set (map patient_id (patients (s_db sess)))"
    and "derive_accession_number seq \<in> set (map accession_number (worklist_items (s_db sess)))"
    by blast+
  then obtain p w where "first_patient (s_db sess) cht = Some p"
    and "first_item (s_db sess) (derive_accession_number seq) = Some w"
    by (cases "first_patient (s_db sess) cht"; cases "first_item (s_db sess) (derive_accession_number seq)")
       (auto simp: first_patient_def first_item_def find_None_iff)
  with fields assms(1) show ?thesis
    by (simp add: process_order_def resolve_patient_def)
qed

text \<open>
  Idempotence over a fixed batch: whatever a run over a list of orders has left in the
  database, a second run over the same list adds nothing and returns 0.
\<close>

lemma sync_orders_idempotent:
  "sync_orders lib (snd (sync_orders lib d os)) os = (0, snd (sync_orders lib d os))"
proof -
  let ?s0 = "\<lparr>s_db = d, s_new = [], s_active = True\<rparr>"
  obtain sess count where run: "foldl (process_order lib) (?s0, 0) os = (sess, count)"
    by (cases "foldl (process_order lib) (?s0, 0) os")
  show ?thesis
  proof (cases "commit sess")
    case None
    with run have "sync_orders lib d os = (0, d)"
      by (simp add: sync_orders_def)
    then show ?thesis by simp
  next
    case (Some d')
    then have active: "s_active sess" and flushed: "flush_items (s_db sess) (s_new sess) = Some d'"
      by (auto simp: commit_def split: if_splits)
    from run Some have first: "sync_orders lib d os = (count, d')"
      by (simp add: sync_orders_def)
    let ?s1 = "\<lparr>s_db = d', s_new = [], s_active = True\<rparr>"
    from flush_items_Some(1,2) [OF flushed]
    have stored: "worklist_items d' = session_items sess" "patients d' = patients (s_db sess)"
      by (simp_all add: session_items_def)
    from foldl_process_order_covers [OF run active] stored
    have covered: "\<forall>ord \<in> set os. \<forall>cht nam odr_dtm seq. required_fields ord = Some (cht, nam, odr_dtm, seq)
           \<longrightarrow> cht \<in> set (map patient_id (patients (s_db ?s1)))
               \<and> derive_accession_number seq \<in> set (map accession_number (worklist_items (s_db ?s1)))"
      by simp
    have "foldl (process_order lib) (?s1, 0) os = (?s1, 0)"
      using covered
    proof (induction os)
      case Nil
      then show ?case by simp
    next
      case (Cons ord os)
      from Cons.prems have "process_order lib (?s1, 0) ord = (?s1, 0)"
        by (intro process_order_covered) simp_all
      with Cons show ?case by simp
    qed
    then have "sync_orders lib d' os = (0, d')"
      by (simp add: sync_orders_def commit_def)
    with first show ?thesis by simp
  qed
qed

section \<open>Properties of the worklist query engine\<close>

lemma item_selected_iff:
  "item_selected modality_arg date_arg accession_arg w
     \<longleftrightarrow> satisfies_filter modality_arg date_arg accession_arg w"
  by (cases modality_arg; cases date_arg; cases accession_arg)
     (auto simp: item_selected_def satisfies_filter_def given_def)

text \<open>A key that is unique in a table selects one row, the one \<open>first()\<close> returns.\<close>

lemma unique_key_row:
  assumes "distinct (map key xs)" and "k \<in> set (map key xs)"
  shows "\<exists>x. find (\<lambda>y. key y = k) xs = Some x \<and> filter (\<lambda>y. key y = k) xs = [x]"
  using assms
proof (induction xs)
  case Nil
  then show ?case by simp
next
  case (Cons a xs)
  show ?case
  proof (cases "key a = k")
    case True
    from Cons.prems(1) have "key a \<notin> key ` set xs"
      by simp
    with True have "\<forall>y \<in> set xs. key y \<noteq> k"
      by (metis image_eqI)
    then have "filter (\<lambda>y. key y = k) xs = []"
      by (simp add: filter_empty_conv)
    with True show ?thesis by simp
  next
    case False
    with Cons show ?thesis by auto
  qed
qed

lemma unique_key_find:
  assumes "distinct (map key xs)" and "x \<in> set xs"
  shows "find (\<lambda>y. key y = key x) xs = Some x"
  using assms by (induction xs) auto

lemma joined_rows:
  assumes "\<forall>w \<in> set ws. \<exists>p. first_patient d (item_patient_id w) = Some p
             \<and> filter (\<lambda>p. patient_id p = item_patient_id w) (patients d) = [p]"
  shows "list_all2 (\<lambda>r w. \<exists>p. first_patient d (item_patient_id w) = Some p \<and> r = make_row w p)
           (concat (map (\<lambda>w. map (make_row w)
                             (filter (\<lambda>p. patient_id p = item_patient_id w) (patients d))) ws)) ws"
  using assms by (induction ws) auto

lemma get_worklist_items_joined:
  assumes "referential_integrity d"
  shows "list_all2 (\<lambda>r w. \<exists>p. first_patient d (item_patient_id w) = Some p \<and> r = make_row w p)
           (get_worklist_items d modality_arg date_arg accession_arg)
           (filter (satisfies_filter modality_arg date_arg accession_arg) (worklist_items d))"
proof -
  let ?ws = "filter (item_selected modality_arg date_arg accession_arg) (worklist_items d)"
  have "\<forall>w \<in> set ?ws. \<exists>p. first_patient d (item_patient_id w) = Some p
             \<and> filter (\<lambda>p. patient_id p = item_patient_id w) (patients d) = [p]"
  proof
    fix w assume "w \<in> set ?ws"
    with assms have "item_patient_id w \<in> set (map patient_id (patients d))"
      and "distinct (map patient_id (patients d))"
      by (auto simp: referential_integrity_def)
    from unique_key_row [OF this(2,1)]
    show "\<exists>p. first_patient d (item_patient_id w) = Some p
             \<and> filter (\<lambda>p. patient_id p = item_patient_id w) (patients d) = [p]"
      by (simp add: first_patient_def)
  qed
  from joined_rows [OF this] show ?thesis
    by (simp add: get_worklist_items_def item_selected_iff [abs_def])
qed

text \<open>
  Claim C5. In a store that meets its foreign key and unique constraints, the rows
  \<open>get_worklist_items\<close> returns are, in order, those of the items that are \<open>SCHEDULED\<close>
  and match every predicate that is given, each item joined with its patient; with the
  wildcard accession number and no other filter they are all the \<open>SCHEDULED\<close> items. A
  filter value that is absent or empty counts as not given.
\<close>

theorem query_returns_matching_items:
  assumes "referential_integrity d"
  shows "list_all2 (\<lambda>r w. \<exists>p. first_patient d (item_patient_id w) = Some p \<and> r = make_row w p)
           (get_worklist_items d modality_arg date_arg accession_arg)
           (filter (satisfies_filter modality_arg date_arg accession_arg) (worklist_items d))
     \<and> map r_accession_number (get_worklist_items d modality_arg date_arg accession_arg)
         = map accession_number
             (filter (satisfies_filter modality_arg date_arg accession_arg) (worklist_items d))
     \<and> map r_accession_number (get_worklist_items d None None (Some ''*''))
         = map accession_number (filter (\<lambda>w. status w = ''SCHEDULED'') (worklist_items d))"
proof -
  have accessions: "map r_accession_number rows = map accession_number ws"
    if "list_all2 (\<lambda>r w. \<exists>p. first_patient d (item_patient_id w) = Some p \<and> r = make_row w p) rows ws"
    for rows ws
    using that by (induction rule: list_all2_induct) (auto simp: make_row_def)
  have all: "satisfies_filter None None (Some ''*'') = (\<lambda>w. status w = ''SCHEDULED'')"
    by (auto simp: satisfies_filter_def given_def)
  from get_worklist_items_joined [OF assms]
    accessions [OF get_worklist_items_joined [OF assms]]
    accessions [OF get_worklist_items_joined [OF assms, of None None "Some ''*''"]]
  show ?thesis
    by (simp add: all)
qed

text \<open>
  A store with a CT and an ultrasound item that are scheduled and a completed ultrasound
  item: the filter on the modality \<open>US\<close> returns the scheduled ultrasound item, and the
  wildcard alone returns the two scheduled items.
\<close>

theorem query_returns_matching_items_witness:
  "map r_accession_number (get_worklist_items store44 (Some ''US'') None (Some ''*'')) = [''00000043'']
   \<and> map r_accession_number (get_worklist_items store44 None None (Some ''*''))
       = [''00000042'', ''00000043'']"
proof -
  note data = store44_def store43_def item42_def item43_def item44_def john_doe_def kim_def
  have integrity: "referential_integrity store44"
    by (simp add: referential_integrity_def data)
  have ultrasound: "map accession_number
      (filter (satisfies_filter (Some ''US'') None (Some ''*'')) (worklist_items store44)) = [''00000043'']"
    by (simp add: satisfies_filter_def given_def data)
  have scheduled: "map accession_number
      (filter (\<lambda>w. status w = ''SCHEDULED'') (worklist_items store44)) = [''00000042'', ''00000043'']"
    by (simp add: data)
  from query_returns_matching_items [OF integrity, of "Some ''US''" None "Some ''*''"]
    ultrasound scheduled
  show ?thesis
    by simp
qed

subsection \<open>The datasets of a C-FIND\<close>

lemma worklist_object_appends:
  "\<exists>st1 uid. worklist_object lib (st, objs) item = (st1, objs @ [worklist_dataset item uid])"
proof (cases "if truthy (r_study_instance_uid item) then r_study_instance_uid item else None")
  case None
  then show ?thesis by (auto simp: worklist_object_def Let_def)
next
  case (Some uid)
  then show ?thesis by (auto simp: worklist_object_def)
qed

lemma foldl_worklist_object:
  "\<exists>new. snd (foldl (worklist_object lib) (st, objs) rows) = objs @ new
     \<and> list_all2 (\<lambda>ds item. \<exists>uid. ds = worklist_dataset item uid) new rows"
proof (induction rows arbitrary: st objs)
  case Nil
  then show ?case by simp
next
  case (Cons item rows)
  from worklist_object_appends [of lib st objs item] obtain st1 uid
    where step: "worklist_object lib (st, objs) item = (st1, objs @ [worklist_dataset item uid])"
    by blast
  from Cons.IH [of st1 "objs @ [worklist_dataset item uid]"] obtain new
    where "snd (foldl (worklist_object lib) (st1, objs @ [worklist_dataset item uid]) rows)
        = (objs @ [worklist_dataset item uid]) @ new"
      and "list_all2 (\<lambda>ds item. \<exists>uid. ds = worklist_dataset item uid) new rows"
    by blast
  with step have "snd (foldl (worklist_object lib) (st, objs) (item # rows))
        = objs @ (worklist_dataset item uid # new)
      \<and> list_all2 (\<lambda>ds item. \<exists>uid. ds = worklist_dataset item uid) (worklist_dataset item uid # new) (item # rows)"
    by auto
  then show ?case by blast
qed

lemma find_worklist_datasets:
  "list_all2 (\<lambda>ds item. \<exists>uid. ds = worklist_dataset item uid)
     (snd (find_worklist lib st requestedDS))
     (find_rows (snd (sync_emr_orders lib (emr st) (db st))) requestedDS)"
  using foldl_worklist_object [of lib "st\<lparr>db := snd (sync_emr_orders lib (emr st) (db st))\<rparr>" "[]"
      "find_rows (snd (sync_emr_orders lib (emr st) (db st))) requestedDS"]
  by (auto simp: find_worklist_def Let_def)

text \<open>
  Claim C8. The datasets \<open>find_worklist\<close> builds correspond, in order, to the rows it
  queried after the synchronization. Each dataset carries the modality of its row, and
  its patient name is the English (romanized) name of the row when that modality is
  \<open>US\<close>, and the patient name as stored otherwise.
\<close>

theorem display_name_by_modality:
  "list_all2
     (\<lambda>ds item.
        map sps_Modality (ScheduledProcedureStepSequence ds) = [r_modality item]
        \<and> PatientName ds = (if r_modality item = Some ''US'' then r_patient_eng_name item
                            else Some (r_patient_name item)))
     (snd (find_worklist lib st requestedDS))
     (find_rows (snd (sync_emr_orders lib (emr st) (db st))) requestedDS)"
  by (rule list_all2_mono [OF find_worklist_datasets]) (auto simp: worklist_dataset_def)

text \<open>Evaluation of a C-FIND without filters on the example store with two scheduled items.\<close>

lemma sync_offline: "sync_emr_orders lib offline d = (0, d)"
  by (simp add: sync_emr_orders_def sync_orders_def fetch_new_orders_def offline_def commit_def)

lemma find_rows_store43:
  "find_rows store43 no_filter = [make_row item42 john_doe, make_row item43 kim]"
  by (simp add: find_rows_def no_filter_def get_worklist_items_def item_selected_def store43_def
        item42_def item43_def john_doe_def kim_def)

text \<open>
  The CT item of the patient \<open>JOHN\<close> is listed under the stored name, the ultrasound item
  of the patient with the Hangul name under the romanized name \<open>KIM\<close>.
\<close>

theorem display_name_by_modality_witness:
  "map PatientName (snd (find_worklist lib0 state43 no_filter))
     = [Some [74, 79, 72, 78], Some [75, 73, 77]]"
proof -
  have rows: "find_rows (snd (sync_emr_orders lib0 (emr state43) (db state43))) no_filter
      = [make_row item42 john_doe, make_row item43 kim]"
    by (simp add: state43_def sync_offline find_rows_store43)
  have names: "r_modality (make_row item42 john_doe) = Some ''CT''"
    "r_patient_name (make_row item42 john_doe) = [74, 79, 72, 78]"
    "r_modality (make_row item43 kim) = Some ''US''"
    "r_patient_eng_name (make_row item43 kim) = Some [75, 73, 77]"
    by (simp_all add: make_row_def item42_def item43_def john_doe_def kim_def)
  from display_name_by_modality [of lib0 state43 no_filter]
  show ?thesis
    unfolding rows by (auto simp: list_all2_Cons2 names)
qed

subsection \<open>The study instance UIDs a C-FIND writes\<close>

lemma find_update_first_other:
  assumes "\<And>x. key (f x) = key x" and "k' \<noteq> k"
  shows "find (\<lambda>y. key y = k') (update_first (\<lambda>y. key y = k) f xs) = find (\<lambda>y. key y = k') xs"
  using assms by (induction xs) auto

lemma update_study_instance_uid_same:
  assumes "first_item d acc = Some w"
  shows "map_option study_instance_uid (first_item (snd (update_study_instance_uid d acc uid)) acc)
           = Some (Some uid)"
proof -
  have "find (\<lambda>w. accession_number w = acc)
          (update_first (\<lambda>w. accession_number w = acc) (\<lambda>w. w\<lparr>study_instance_uid := Some uid\<rparr>)
             (worklist_items d))
        = map_option (\<lambda>w. w\<lparr>study_instance_uid := Some uid\<rparr>)
            (find (\<lambda>w. accession_number w = acc) (worklist_items d))"
    by (rule find_update_first) simp
  with assms show ?thesis
    by (simp add: update_study_instance_uid_def first_item_def)
qed

lemma update_study_instance_uid_other:
  assumes "acc' \<noteq> acc"
  shows "first_item (snd (update_study_instance_uid d acc uid)) acc' = first_item d acc'"
proof (cases "first_item d acc")
  case None
  then show ?thesis by (simp add: update_study_instance_uid_def)
next
  case (Some w)
  have "find (\<lambda>w. accession_number w = acc')
          (update_first (\<lambda>w. accession_number w = acc) (\<lambda>w. w\<lparr>study_instance_uid := Some uid\<rparr>)
             (worklist_items d))
        = find (\<lambda>w. accession_number w = acc') (worklist_items d)"
    by (rule find_update_first_other) (simp_all add: assms)
  with Some show ?thesis
    by (simp add: update_study_instance_uid_def first_item_def)
qed

text \<open>
  The loop of \<open>find_worklist\<close>: when the rows have distinct accession numbers and still
  agree with the database, the database afterwards holds the study instance UID of
  every dataset built.
\<close>

lemma foldl_worklist_object_written:
  assumes "distinct (map r_accession_number rows)"
    and "\<forall>r \<in> set rows. map_option study_instance_uid (first_item (db st) (r_accession_number r))
           = Some (r_study_instance_uid r)"
    and "\<forall>ds \<in> set objs. map_option study_instance_uid (first_item (db st) (AccessionNumber ds))
           = Some (Some (StudyInstanceUID ds))"
    and "\<forall>ds \<in> set objs. AccessionNumber ds \<notin> set (map r_accession_number rows)"
  shows "\<forall>ds \<in> set (snd (foldl (worklist_object lib) (st, objs) rows)).
           map_option study_instance_uid
             (first_item (db (fst (foldl (worklist_object lib) (st, objs) rows))) (AccessionNumber ds))
           = Some (Some (StudyInstanceUID ds))"
  using assms
proof (induction rows arbitrary: st objs)
  case Nil
  then show ?case by simp
next
  case (Cons item rows)
  let ?acc = "r_accession_number item"
  from Cons.prems(1) have fresh: "?acc \<notin> set (map r_accession_number rows)"
    and rest: "distinct (map r_accession_number rows)"
    by simp_all
  from Cons.prems(2) have current: "map_option study_instance_uid (first_item (db st) ?acc)
      = Some (r_study_instance_uid item)"
    by simp
  show ?case
  proof (cases "if truthy (r_study_instance_uid item) then r_study_instance_uid item else None")
    case (Some uid)
    then have stored: "r_study_instance_uid item = Some uid"
      by (simp split: if_splits)
    from Some have step: "worklist_object lib (st, objs) item = (st, objs @ [worklist_dataset item uid])"
      by (simp add: worklist_object_def)
    have "\<forall>ds \<in> set (snd (foldl (worklist_object lib) (st, objs @ [worklist_dataset item uid]) rows)).
           map_option study_instance_uid
             (first_item (db (fst (foldl (worklist_object lib) (st, objs @ [worklist_dataset item uid]) rows)))
                (AccessionNumber ds))
           = Some (Some (StudyInstanceUID ds))"
    proof (rule Cons.IH [OF rest])
      show "\<forall>r \<in> set rows. map_option study_instance_uid (first_item (db st) (r_accession_number r))
           = Some (r_study_instance_uid r)"
        using Cons.prems(2) by simp
      show "\<forall>ds \<in> set (objs @ [worklist_dataset item uid]).
          map_option study_instance_uid (first_item (db st) (AccessionNumber ds))
           = Some (Some (StudyInstanceUID ds))"
        using Cons.prems(3) current stored by (auto simp: worklist_dataset_def)
      show "\<forall>ds \<in> set (objs @ [worklist_dataset item uid]).
          AccessionNumber ds \<notin> set (map r_accession_number rows)"
        using Cons.prems(4) fresh by (auto simp: worklist_dataset_def)
    qed
    with step show ?thesis by simp
  next
    case None
    let ?uid = "generate_uid lib (uids_generated st)"
    let ?d = "snd (update_study_instance_uid (db st) ?acc ?uid)"
    let ?st = "st\<lparr>db := ?d, uids_generated := Suc (uids_generated st)\<rparr>"
    from None have step: "worklist_object lib (st, objs) item = (?st, objs @ [worklist_dataset item ?uid])"
      by (simp add: worklist_object_def Let_def)
    from current obtain w where item: "first_item (db st) ?acc = Some w"
      by auto
    have "\<forall>ds \<in> set (snd (foldl (worklist_object lib) (?st, objs @ [worklist_dataset item ?uid]) rows)).
           map_option study_instance_uid
             (first_item (db (fst (foldl (worklist_object lib) (?st, objs @ [worklist_dataset item ?uid]) rows)))
                (AccessionNumber ds))
           = Some (Some (StudyInstanceUID ds))"
    proof (rule Cons.IH [OF rest])
      show "\<forall>r \<in> set rows. map_option study_instance_uid (first_item (db ?st) (r_accession_number r))
           = Some (r_study_instance_uid r)"
      proof
        fix r assume r: "r \<in> set rows"
        with fresh have "r_accession_number r \<noteq> ?acc"
          by (metis image_eqI list.set_map)
        from update_study_instance_uid_other [OF this] Cons.prems(2) r
        show "map_option study_instance_uid (first_item (db ?st) (r_accession_number r))
           = Some (r_study_instance_uid r)"
          by simp
      qed
      show "\<forall>ds \<in> set (objs @ [worklist_dataset item ?uid]).
          map_option study_instance_uid (first_item (db ?st) (AccessionNumber ds))
           = Some (Some (StudyInstanceUID ds))"
      proof
        fix ds assume "ds \<in> set (objs @ [worklist_dataset item ?uid])"
        then consider (old) "ds \<in> set objs" | (new) "ds = worklist_dataset item ?uid"
          by auto
        then show "map_option study_instance_uid (first_item (db ?st) (AccessionNumber ds))
           = Some (Some (StudyInstanceUID ds))"
        proof cases
          case old
          with Cons.prems(4) have "AccessionNumber ds \<noteq> ?acc"
            by auto
          from update_study_instance_uid_other [OF this] Cons.prems(3) old
          show ?thesis by simp
        next
          case new
          with update_study_instance_uid_same [OF item, of ?uid]
          show ?thesis by (simp add: worklist_dataset_def)
        qed
      qed
      show "\<forall>ds \<in> set (objs @ [worklist_dataset item ?uid]).
          AccessionNumber ds \<notin> set (map r_accession_number rows)"
        using Cons.prems(4) fresh by (auto simp: worklist_dataset_def)
    qed
    with step show ?thesis by simp
  qed
qed

lemma list_all2_related:
  assumes "list_all2 R xs ys" and "x \<in> set xs"
  shows "\<exists>y \<in> set ys. R x y"
  using assms by (induction rule: list_all2_induct) auto

text \<open>The rows of a query in a store that meets its constraints agree with the store.\<close>

lemma get_worklist_items_current:
  assumes "referential_integrity d"
  shows "distinct (map r_accession_number (get_worklist_items d modality_arg date_arg accession_arg))"
    and "\<forall>r \<in> set (get_worklist_items d modality_arg date_arg accession_arg).
           map_option study_instance_uid (first_item d (r_accession_number r))
           = Some (r_study_instance_uid r)"
proof -
  let ?rows = "get_worklist_items d modality_arg date_arg accession_arg"
  let ?ws = "filter (satisfies_filter modality_arg date_arg accession_arg) (worklist_items d)"
  note joined = get_worklist_items_joined [OF assms, of modality_arg date_arg accession_arg]
  from assms have unique: "distinct (map accession_number (worklist_items d))"
    by (simp add: referential_integrity_def)
  have "map r_accession_number ?rows = map accession_number ?ws"
    using joined by (induction rule: list_all2_induct) (auto simp: make_row_def)
  with unique show "distinct (map r_accession_number ?rows)"
    by (simp add: distinct_map_filter)
  show "\<forall>r \<in> set ?rows. map_option study_instance_uid (first_item d (r_accession_number r))
           = Some (r_study_instance_uid r)"
  proof
    fix r assume "r \<in> set ?rows"
    with list_all2_related [OF joined] obtain w p where w: "w \<in> set ?ws" and r: "r = make_row w p"
      by blast
    from w have "w \<in> set (worklist_items d)"
      by simp
    from unique_key_find [OF unique this] r
    show "map_option study_instance_uid (first_item d (r_accession_number r))
           = Some (r_study_instance_uid r)"
      by (simp add: first_item_def make_row_def)
  qed
qed

lemma find_worklist_written:
  assumes "referential_integrity (db st)"
  shows "\<forall>ds \<in> set (snd (find_worklist lib st requestedDS)).
           map_option study_instance_uid
             (first_item (db (fst (find_worklist lib st requestedDS))) (AccessionNumber ds))
           = Some (Some (StudyInstanceUID ds))"
proof -
  let ?d = "snd (sync_emr_orders lib (emr st) (db st))"
  let ?st = "st\<lparr>db := ?d\<rparr>"
  have rows: "find_rows ?d requestedDS
      = get_worklist_items ?d
          (case (case q_ScheduledProcedureStepSequence requestedDS of
                   None \<Rightarrow> None | Some [] \<Rightarrow> None | Some (x # rest) \<Rightarrow> Some x) of
             None \<Rightarrow> None | Some x \<Rightarrow> q_Modality x)
          (case (case q_ScheduledProcedureStepSequence requestedDS of
                   None \<Rightarrow> None | Some [] \<Rightarrow> None | Some (x # rest) \<Rightarrow> Some x) of
             None \<Rightarrow> None | Some x \<Rightarrow> q_ScheduledProcedureStepStartDate x)
          (Some (case q_AccessionNumber requestedDS of None \<Rightarrow> ''*'' | Some a \<Rightarrow> a))"
    by (simp add: find_rows_def Let_def)
  from sync_emr_orders_integrity [OF assms] have integrity: "referential_integrity ?d" .
  have "\<forall>ds \<in> set (snd (foldl (worklist_object lib) (?st, []) (find_rows ?d requestedDS))).
           map_option study_instance_uid
             (first_item (db (fst (foldl (worklist_object lib) (?st, []) (find_rows ?d requestedDS))))
                (AccessionNumber ds))
           = Some (Some (StudyInstanceUID ds))"
    unfolding rows
    by (rule foldl_worklist_object_written)
       (use get_worklist_items_current [OF integrity] in simp_all)
  then show ?thesis
    by (simp add: find_worklist_def Let_def)
qed

lemma responses_prefix:
  "\<exists>k \<le> length dsArray.
     responses cancelled i dsArray
       = map (\<lambda>ds. (0xFF00, Some ds)) (take k dsArray)
         @ [(if k < length dsArray then 0xFE00 else 0x0000, None)]"
proof (induction dsArray arbitrary: i)
  case Nil
  then show ?case by simp
next
  case (Cons ds dsArray)
  show ?case
  proof (cases "cancelled i")
    case True
    then have "responses cancelled i (ds # dsArray)
        = map (\<lambda>ds. (0xFF00, Some ds)) (take 0 (ds # dsArray))
          @ [(if 0 < length (ds # dsArray) then 0xFE00 else 0x0000, None)]"
      by simp
    then show ?thesis by blast
  next
    case False
    from Cons.IH [of "Suc i"] obtain k where k: "k \<le> length dsArray"
      "responses cancelled (Suc i) dsArray
        = map (\<lambda>ds. (0xFF00, Some ds)) (take k dsArray)
          @ [(if k < length dsArray then 0xFE00 else 0x0000, None)]"
      by blast
    with False have "Suc k \<le> length (ds # dsArray)
      \<and> responses cancelled i (ds # dsArray)
        = map (\<lambda>ds. (0xFF00, Some ds)) (take (Suc k) (ds # dsArray))
          @ [(if Suc k < length (ds # dsArray) then 0xFE00 else 0x0000, None)]"
      by simp
    then show ?thesis by blast
  qed
qed

text \<open>
  Claim C6, as the code has it. \<open>handle_find\<close> calls \<open>find_worklist\<close> before it yields
  anything, and \<open>find_worklist\<close> builds the whole list: in a store that meets its
  constraints, the state after \<open>handle_find\<close> is that after \<open>find_worklist\<close> whatever
  \<open>is_cancelled\<close> answers; the store then holds the study instance UID of every
  dataset of the list, yielded or not; and what is yielded is a prefix of the list as
  pending responses, followed by the cancelled or the success response.
\<close>

theorem find_writes_before_first_response:
  assumes "referential_integrity (db st)"
  shows "fst (handle_find lib st event) = fst (find_worklist lib st (request_identifier event))
    \<and> (\<forall>ds \<in> set (snd (find_worklist lib st (request_identifier event))).
          map_option study_instance_uid
            (first_item (db (fst (handle_find lib st event))) (AccessionNumber ds))
          = Some (Some (StudyInstanceUID ds)))
    \<and> (\<exists>k \<le> length (snd (find_worklist lib st (request_identifier event))).
          snd (handle_find lib st event)
          = map (\<lambda>ds. (0xFF00, Some ds)) (take k (snd (find_worklist lib st (request_identifier event))))
            @ [(if k < length (snd (find_worklist lib st (request_identifier event)))
                then 0xFE00 else 0x0000, None)])"
proof -
  obtain st' dsArray where found: "find_worklist lib st (request_identifier event) = (st', dsArray)"
    by (cases "find_worklist lib st (request_identifier event)")
  then have handled: "handle_find lib st event = (st', responses (is_cancelled event) 0 dsArray)"
    by (simp add: handle_find_def)
  from find_worklist_written [OF assms, of lib "request_identifier event"] found
  have written: "\<forall>ds \<in> set dsArray.
      map_option study_instance_uid (first_item (db st') (AccessionNumber ds))
      = Some (Some (StudyInstanceUID ds))"
    by simp
  from responses_prefix [of dsArray "is_cancelled event" 0] found handled written
  show ?thesis
    by simp
qed

text \<open>Evaluation of the C-FIND without filters on the store with two scheduled items.\<close>

lemma generate_uid_lib0:
  "generate_uid lib0 0 = ''1.2.826.0.1.0''" "generate_uid lib0 (Suc 0) = ''1.2.826.0.1.1''"
  by code_simp+

lemma find_worklist_state43:
  "find_worklist lib0 state43 no_filter
     = (state43\<lparr>db := store43\<lparr>worklist_items :=
                          [item42\<lparr>study_instance_uid := Some ''1.2.826.0.1.0''\<rparr>,
                           item43\<lparr>study_instance_uid := Some ''1.2.826.0.1.1''\<rparr>]\<rparr>,
                uids_generated := Suc (Suc 0)\<rparr>,
        [worklist_dataset (make_row item42 john_doe) ''1.2.826.0.1.0'',
         worklist_dataset (make_row item43 kim) ''1.2.826.0.1.1''])"
proof -
  have start: "find_worklist lib0 state43 no_filter
      = foldl (worklist_object lib0) (state43, []) [make_row item42 john_doe, make_row item43 kim]"
    by (simp add: find_worklist_def Let_def state43_def sync_offline find_rows_store43)
  have first: "worklist_object lib0 (state43, []) (make_row item42 john_doe)
      = (state43\<lparr>db := store43\<lparr>worklist_items := [item42\<lparr>study_instance_uid := Some ''1.2.826.0.1.0''\<rparr>, item43]\<rparr>,
                 uids_generated := Suc 0\<rparr>,
         [worklist_dataset (make_row item42 john_doe) ''1.2.826.0.1.0''])"
    by (simp add: worklist_object_def truthy_def make_row_def Let_def state43_def generate_uid_lib0
          update_study_instance_uid_def first_item_def store43_def item42_def item43_def)
  have second: "worklist_object lib0
       (state43\<lparr>db := store43\<lparr>worklist_items := [item42\<lparr>study_instance_uid := Some ''1.2.826.0.1.0''\<rparr>, item43]\<rparr>,
                 uids_generated := Suc 0\<rparr>,
        [worklist_dataset (make_row item42 john_doe) ''1.2.826.0.1.0''])
       (make_row item43 kim)
      = (state43\<lparr>db := store43\<lparr>worklist_items :=
                          [item42\<lparr>study_instance_uid := Some ''1.2.826.0.1.0''\<rparr>,
                           item43\<lparr>study_instance_uid := Some ''1.2.826.0.1.1''\<rparr>]\<rparr>,
                uids_generated := Suc (Suc 0)\<rparr>,
        [worklist_dataset (make_row item42 john_doe) ''1.2.826.0.1.0'',
         worklist_dataset (make_row item43 kim) ''1.2.826.0.1.1''])"
    by (simp add: worklist_object_def truthy_def make_row_def Let_def state43_def generate_uid_lib0
          update_study_instance_uid_def first_item_def store43_def item42_def item43_def)
  show ?thesis
    unfolding start by (simp add: first second)
qed

text \<open>
  Claim C6 as stated fails: the caller cancels after the first dataset, so the second
  is never yielded, and yet the study instance UID of the second item, which the store
  did not have, has been generated and written.
\<close>

theorem find_cancelled_writes_unyielded:
  "map fst (snd (handle_find lib0 state43 find_cancelled)) = [0xFF00, 0xFE00]
   \<and> map (map_option AccessionNumber \<circ> snd) (snd (handle_find lib0 state43 find_cancelled))
       = [Some ''00000042'', None]
   \<and> map study_instance_uid (worklist_items (db state43)) = [None, None]
   \<and> map study_instance_uid (worklist_items (db (fst (handle_find lib0 state43 find_cancelled))))
       = [Some ''1.2.826.0.1.0'', Some ''1.2.826.0.1.1'']"
proof -
  have before: "map study_instance_uid (worklist_items (db state43)) = [None, None]"
    by (simp add: state43_def store43_def item42_def item43_def)
  have "handle_find lib0 state43 find_cancelled
      = (fst (find_worklist lib0 state43 no_filter),
         [(0xFF00, Some (worklist_dataset (make_row item42 john_doe) ''1.2.826.0.1.0'')), (0xFE00, None)])"
    by (simp add: handle_find_def find_cancelled_def find_worklist_state43)
  with before show ?thesis
    by (simp add: find_worklist_state43 worklist_dataset_def make_row_def item42_def)
qed

text \<open>
  The same store and request, cancelled after the first dataset: the final state is that
  of \<open>find_worklist\<close>, with both study instance UIDs written.
\<close>

theorem find_writes_before_first_response_witness:
  "fst (handle_find lib0 state43 find_cancelled) = fst (find_worklist lib0 state43 no_filter)
   \<and> map_option study_instance_uid
        (first_item (db (fst (handle_find lib0 state43 find_cancelled))) ''00000043'')
       = Some (Some ''1.2.826.0.1.1'')"
proof -
  have integrity: "referential_integrity (db state43)"
    by (simp add: referential_integrity_def state43_def store43_def item42_def item43_def
          john_doe_def kim_def)
  have request: "request_identifier find_cancelled = no_filter"
    by (simp add: find_cancelled_def)
  have second: "worklist_dataset (make_row item43 kim) ''1.2.826.0.1.1''
      \<in> set (snd (find_worklist lib0 state43 (request_identifier find_cancelled)))"
    by (simp add: request find_worklist_state43)
  have accession: "AccessionNumber (worklist_dataset (make_row item43 kim) ''1.2.826.0.1.1'') = ''00000043''"
    and uid: "StudyInstanceUID (worklist_dataset (make_row item43 kim) ''1.2.826.0.1.1'') = ''1.2.826.0.1.1''"
    by (simp_all add: worklist_dataset_def make_row_def item43_def)
  from find_writes_before_first_response [OF integrity, of lib0 find_cancelled] second
  have "fst (handle_find lib0 state43 find_cancelled)
        = fst (find_worklist lib0 state43 (request_identifier find_cancelled))
      \<and> map_option study_instance_uid
          (first_item (db (fst (handle_find lib0 state43 find_cancelled)))
             (AccessionNumber (worklist_dataset (make_row item43 kim) ''1.2.826.0.1.1'')))
        = Some (Some (StudyInstanceUID (worklist_dataset (make_row item43 kim) ''1.2.826.0.1.1'')))"
    by blast
  then show ?thesis
    unfolding request accession uid .
qed

end
